theory Spec2Isabelle
  imports
    Main
    "HOL-Library.AList"
    "HOL-Library.Multiset"
    "HOL-Library.Char_ord"
    "HOL-Library.List_Lexorder"
begin

section \<open>Go values shared by the variants of the program\<close>

text \<open>
  The repository holds several versions of the order-picking reporter. They are embedded
  side by side: the definitions of \<^verbatim>\<open>cmd/main.go\<close> keep the source's names, those of
  the other versions carry a suffix (\<open>_ids\<close> for the version that keys its rack maps by
  rack identifier, \<open>_store\<close> for the version that goes through the sqlc store).

  A Go map is an association list with distinct keys. Reading \<open>m[k]\<close> gives the zero
  value of the element type when the key is absent; \<open>m[k] = v\<close> replaces or adds the
  entry. The order in which \<^verbatim>\<open>range\<close> visits a map is not specified by Go: a function
  that ranges over a map it receives visits the entries in the order of the list it is
  given, and the theorems hold for every such list; where the program ranges over a map
  it has built itself, the order is a parameter (see \<open>solve\<close>).
\<close>

type_synonym ('k, 'v) gomap = "('k \<times> 'v) list"

definition index :: "'v \<Rightarrow> ('k, 'v) gomap \<Rightarrow> 'k \<Rightarrow> 'v" where
  "index zero m k = (case map_of m k of None \<Rightarrow> zero | Some v \<Rightarrow> v)"

definition assign :: "('k, 'v) gomap \<Rightarrow> 'k \<Rightarrow> 'v \<Rightarrow> ('k, 'v) gomap" where
  "assign m k v = AList.update k v m"

text \<open>Integers of the program (\<^verbatim>\<open>int64\<close>, \<^verbatim>\<open>int\<close>) are only scanned, compared and
  printed, never computed with; they are \<open>int\<close>. The one place that converts between
  widths, \<^verbatim>\<open>strconv.ParseInt\<close>, writes the wrap-around out.\<close>

datatype dberr = DBErr string

datatype error =
    FailedQueryOrders dberr
  | FailedScanOrderRow dberr
  | FailedIterateOrderRows dberr
  | Plain dberr
  | FailedGetOrder int dberr
  | FailedGetProduct int dberr
  | FailedGetMainRack int dberr
  | FailedGetSecondaryRacks int dberr

datatype panic = SliceBoundsOutOfRange | IndexOutOfRange

text \<open>What \<^verbatim>\<open>db.QueryContext\<close> and the iteration over its rows give: the query fails, or
  it yields rows, each of which scans or fails to scan, and \<^verbatim>\<open>rows.Err()\<close> at the end.\<close>

datatype 'r scan = Scanned 'r | ScanFailed dberr

datatype 'r response = QueryFailed dberr | Rows "'r scan list" "dberr option"

section \<open>Text output\<close>

definition NL :: string where
  "NL = [CHR 0x0A]"

definition banner :: string where
  "banner = ''=+=+=+=''"

text \<open>The UTF-8 bytes of the Cyrillic words of the format strings.\<close>

definition rackHeader :: string where
  "rackHeader = ''==='' @ [CHR 0xD0, CHR 0xA1, CHR 0xD1, CHR 0x82, CHR 0xD0, CHR 0xB5,
     CHR 0xD0, CHR 0xBB, CHR 0xD0, CHR 0xBB, CHR 0xD0, CHR 0xB0, CHR 0xD0, CHR 0xB6] @ '' ''"

definition orderWord :: string where
  "orderWord = [CHR 0xD0, CHR 0xB7, CHR 0xD0, CHR 0xB0, CHR 0xD0, CHR 0xBA,
     CHR 0xD0, CHR 0xB0, CHR 0xD0, CHR 0xB7] @ '' ''"

definition piecesWord :: string where
  "piecesWord = '' '' @ [CHR 0xD1, CHR 0x88, CHR 0xD1, CHR 0x82]"

definition extraRackWord :: string where
  "extraRackWord = [CHR 0xD0, CHR 0xB4, CHR 0xD0, CHR 0xBE, CHR 0xD0, CHR 0xBF] @ '' '' @
     [CHR 0xD1, CHR 0x81, CHR 0xD1, CHR 0x82, CHR 0xD0, CHR 0xB5, CHR 0xD0, CHR 0xBB,
      CHR 0xD0, CHR 0xBB, CHR 0xD0, CHR 0xB0, CHR 0xD0, CHR 0xB6] @ '': ''"

text \<open>The verb \<^verbatim>\<open>%d\<close>.\<close>

fun natDigits :: "nat \<Rightarrow> string" where
  "natDigits n =
     (if n < 10 then [''0123456789'' ! n]
      else natDigits (n div 10) @ [''0123456789'' ! (n mod 10)])"

definition fmtInt :: "int \<Rightarrow> string" where
  "fmtInt i = (if i < 0 then ''-'' @ natDigits (nat (- i)) else natDigits (nat i))"

text \<open>Standard output with a possible panic: the bytes written so far, and the panic that
  stopped the writing, if any.\<close>

type_synonym written = "string \<times> panic option"

fun forEach :: "('a \<Rightarrow> written) \<Rightarrow> 'a list \<Rightarrow> written" where
  "forEach f [] = ([], None)"
| "forEach f (x # xs) =
     (case f x of
        (out, Some p) \<Rightarrow> (out, Some p)
      | (out, None) \<Rightarrow> (case forEach f xs of (out', r) \<Rightarrow> (out @ out', r)))"

text \<open>The slice expression \<^verbatim>\<open>s[:hi]\<close> of a string: Go panics unless \<open>0 \<le> hi \<le> len(s)\<close>.\<close>

definition sliceTo :: "string \<Rightarrow> int \<Rightarrow> panic + string" where
  "sliceTo s hi =
     (if 0 \<le> hi \<and> hi \<le> int (length s) then Inr (take (nat hi) s)
      else Inl SliceBoundsOutOfRange)"

text \<open>The loop \<^verbatim>\<open>listAdditionalRacksStr += secondaryRack + ","\<close>.\<close>

definition listAdditionalRacksStr :: "string list \<Rightarrow> string" where
  "listAdditionalRacksStr names = foldl (\<lambda>acc secondaryRack. acc @ secondaryRack @ '','') [] names"

text \<open>The block guarded by \<^verbatim>\<open>len(...) > 0\<close>: the label is printed first, then the
  accumulated string without its last byte.\<close>

definition printAdditionalRacks :: "string list \<Rightarrow> written" where
  "printAdditionalRacks names =
     (if length names > 0 then
        (let s = listAdditionalRacksStr names in
         case sliceTo s (int (length s) - 1) of
           Inl p \<Rightarrow> (extraRackWord, Some p)
         | Inr t \<Rightarrow> (extraRackWord @ t @ NL, None))
      else ([], None))"

section \<open>Parsing the order identifiers\<close>

text \<open>\<^verbatim>\<open>strings.Split(s, ",")\<close>: the substrings between the commas, one more than there
  are commas.\<close>

fun splitFrom :: "string \<Rightarrow> string \<Rightarrow> string list" where
  "splitFrom cur [] = [cur]"
| "splitFrom cur (c # cs) =
     (if c = CHR '','' then cur # splitFrom [] cs else splitFrom (cur @ [c]) cs)"

definition Split :: "string \<Rightarrow> string list" where
  "Split s = splitFrom [] s"

text \<open>
  \<^verbatim>\<open>strconv.ParseInt(s, 10, 64)\<close> and the \<^verbatim>\<open>strconv.ParseUint\<close> it calls, after the Go
  standard library. The loop of \<^verbatim>\<open>ParseUint\<close> reads the bytes from the left: a byte that
  is not a decimal digit ends it with the value 0 and a syntax error (letters are digits
  of value at least 10, which base 10 rejects in the same way); a digit that makes the
  value leave \<^verbatim>\<open>uint64\<close> ends it with the largest value and a range error, whatever
  follows. \<^verbatim>\<open>ParseInt\<close> strips one sign, passes a syntax error on with the value 0 and
  clamps everything outside \<^verbatim>\<open>int64\<close>.
\<close>

datatype numError = ErrSyntax | ErrRange

definition isDigit :: "char \<Rightarrow> bool" where
  "isDigit c = (CHR ''0'' \<le> c \<and> c \<le> CHR ''9'')"

definition digitVal :: "char \<Rightarrow> int" where
  "digitVal c = of_char c - of_char CHR ''0''"

text \<open>Values of type \<^verbatim>\<open>uint64\<close> are integers taken modulo \<open>2 ^ 64\<close>.\<close>

definition maxUint64 :: int where
  "maxUint64 = 2 ^ 64 - 1"

fun ParseUintLoop :: "string \<Rightarrow> int \<Rightarrow> int \<times> numError option" where
  "ParseUintLoop [] n = (n, None)"
| "ParseUintLoop (c # cs) n =
     (if \<not> isDigit c then (0, Some ErrSyntax)
      else if n \<ge> maxUint64 div 10 + 1 then (maxUint64, Some ErrRange)
      else
        (let n10 = (n * 10) mod 2 ^ 64;
             n1 = (n10 + digitVal c) mod 2 ^ 64
         in if n1 < n10 \<or> n1 > maxUint64 then (maxUint64, Some ErrRange)
            else ParseUintLoop cs n1))"

definition ParseUint :: "string \<Rightarrow> int \<times> numError option" where
  "ParseUint s = (if s = [] then (0, Some ErrSyntax) else ParseUintLoop s 0)"

text \<open>The conversion \<^verbatim>\<open>int64(un)\<close> and the negation of an \<^verbatim>\<open>int64\<close> wrap around.\<close>

definition wrap64 :: "int \<Rightarrow> int" where
  "wrap64 x = (x + 2 ^ 63) mod 2 ^ 64 - 2 ^ 63"

definition ParseInt :: "string \<Rightarrow> int \<times> numError option" where
  "ParseInt s0 =
     (if s0 = [] then (0, Some ErrSyntax)
      else
        (let neg = (hd s0 = CHR ''-'');
             s = (if hd s0 = CHR ''+'' \<or> hd s0 = CHR ''-'' then tl s0 else s0);
             (un, err) = ParseUint s;
             cutoff = (2::int) ^ 63
         in if err \<noteq> None \<and> err \<noteq> Some ErrRange then (0, err)
            else if \<not> neg \<and> un \<ge> cutoff then (cutoff - 1, Some ErrRange)
            else if neg \<and> un > cutoff then (- cutoff, Some ErrRange)
            else (let n = wrap64 un in (if neg then wrap64 (- n) else n, None))))"

text \<open>\<^verbatim>\<open>orderID, _ := strconv.ParseInt(orderIDStr, 10, 64)\<close>: the error is dropped.\<close>

definition parseOrderIDs :: "string \<Rightarrow> int list" where
  "parseOrderIDs orderIDsStr = map (\<lambda>orderIDStr. fst (ParseInt orderIDStr)) (Split orderIDsStr)"

section \<open>The program of cmd/main.go\<close>

record Product =
  ID :: int
  Name :: string

record PartOrder =
  OrderID :: int
  Product :: Product
  Quantity :: int

text \<open>The two package-level maps.\<close>

record globals =
  mainRacks :: "(int, string) gomap"
  secondaryRacks :: "(int, string list) gomap"

type_synonym orderRow = "int \<times> int \<times> int \<times> string"
type_synonym rackRow = "int \<times> string \<times> bool"

text \<open>The database, as far as the program sees it: the answer to each of its two queries,
  given the array bound to \<^verbatim>\<open>$1\<close>.\<close>

record db =
  QueryOrders :: "int list \<Rightarrow> orderRow response"
  QueryRacks :: "int list \<Rightarrow> rackRow response"

subsection \<open>getOrders\<close>

text \<open>Every \<^verbatim>\<open>*PartOrder\<close> and \<^verbatim>\<open>*Product\<close> is allocated by \<open>getOrders\<close>, once per row,
  and never written afterwards: the pointers are never nil and are embedded as values.\<close>

fun getOrdersRows ::
  "orderRow scan list \<Rightarrow> (int, PartOrder list) gomap \<Rightarrow> globals
     \<Rightarrow> (error + (int, PartOrder list) gomap) \<times> globals" where
  "getOrdersRows [] orders g = (Inr orders, g)"
| "getOrdersRows (ScanFailed e # rest) orders g = (Inl (FailedScanOrderRow e), g)"
| "getOrdersRows (Scanned (oid, pid, qty, pname) # rest) orders g =
     (let partOrder = \<lparr>OrderID = oid, Product = \<lparr>ID = pid, Name = pname\<rparr>, Quantity = qty\<rparr>
      in getOrdersRows rest
           (assign orders oid (index [] orders oid @ [partOrder]))
           (g\<lparr>mainRacks := assign (mainRacks g) pid []\<rparr>))"

definition getOrders ::
  "db \<Rightarrow> int list \<Rightarrow> globals \<Rightarrow> (error + (int, PartOrder list) gomap) \<times> globals" where
  "getOrders d orderIDs g =
     (case QueryOrders d orderIDs of
        QueryFailed e \<Rightarrow> (Inl (FailedQueryOrders e), g)
      | Rows rs final \<Rightarrow>
          (case getOrdersRows rs [] g of
             (Inl e, g') \<Rightarrow> (Inl e, g')
           | (Inr orders, g') \<Rightarrow>
               (case final of
                  Some e \<Rightarrow> (Inl (FailedIterateOrderRows e), g')
                | None \<Rightarrow> (Inr orders, g'))))"

subsection \<open>initRacks\<close>

fun initRacksRows :: "rackRow scan list \<Rightarrow> globals \<Rightarrow> error option \<times> globals" where
  "initRacksRows [] g = (None, g)"
| "initRacksRows (ScanFailed e # rest) g = (Some (Plain e), g)"
| "initRacksRows (Scanned (productID, rackName, isMain) # rest) g =
     initRacksRows rest
       (if isMain then g\<lparr>mainRacks := assign (mainRacks g) productID rackName\<rparr>
        else g\<lparr>secondaryRacks :=
               assign (secondaryRacks g) productID
                 (index [] (secondaryRacks g) productID @ [rackName])\<rparr>)"

text \<open>\<open>keysOrder\<close> is the order in which \<^verbatim>\<open>range mainRacks\<close> yields the keys.\<close>

definition initRacks ::
  "db \<Rightarrow> (int list \<Rightarrow> int list) \<Rightarrow> globals \<Rightarrow> error option \<times> globals" where
  "initRacks d keysOrder g =
     (let productIDs = keysOrder (map fst (mainRacks g)) in
      case QueryRacks d productIDs of
        QueryFailed e \<Rightarrow> (Some (Plain e), g)
      | Rows rs final \<Rightarrow>
          (case initRacksRows rs g of
             (Some e, g') \<Rightarrow> (Some e, g')
           | (None, g') \<Rightarrow>
               (case final of Some e \<Rightarrow> (Some (Plain e), g') | None \<Rightarrow> (None, g'))))"

subsection \<open>groupOrdersByRack\<close>

definition appendPart ::
  "globals \<Rightarrow> (string, PartOrder list) gomap \<Rightarrow> PartOrder \<Rightarrow> (string, PartOrder list) gomap" where
  "appendPart g racks partOrder =
     (let rackName = index [] (mainRacks g) (ID (Product partOrder))
      in assign racks rackName (index [] racks rackName @ [partOrder]))"

text \<open>The argument \<open>orders\<close> lists the entries of the map in the order \<^verbatim>\<open>range\<close> visits
  them.\<close>

definition groupOrdersByRack ::
  "globals \<Rightarrow> (int, PartOrder list) gomap \<Rightarrow> error + (string, PartOrder list) gomap" where
  "groupOrdersByRack g orders =
     Inr (foldl (\<lambda>racks (orderID, listPartsOrder). foldl (appendPart g) racks listPartsOrder)
            [] orders)"

subsection \<open>printRacksAndOrders\<close>

text \<open>\<^verbatim>\<open>sort.Strings\<close> orders by the bytes of the strings, which is the lexicographic order
  of \<open>char list\<close>; the result does not depend on the order \<^verbatim>\<open>range\<close> yields the keys
  (lemma \<open>getSortedRacksNames_range\<close>).\<close>

definition getSortedRacksNames :: "(string, 'a) gomap \<Rightarrow> string list" where
  "getSortedRacksNames racks = sort (map fst racks)"

definition printPartOrder :: "globals \<Rightarrow> PartOrder \<Rightarrow> written" where
  "printPartOrder g partOrder =
     (let orderID = OrderID partOrder; product = Product partOrder;
          head = Name product @ '' (id='' @ fmtInt (ID product) @ '')'' @ NL @
                 orderWord @ fmtInt orderID @ '', '' @ fmtInt (Quantity partOrder) @ piecesWord @ NL
      in case printAdditionalRacks (index [] (secondaryRacks g) (ID product)) of
           (out, Some p) \<Rightarrow> (head @ out, Some p)
         | (out, None) \<Rightarrow> (head @ out @ NL, None))"

definition printRack :: "globals \<Rightarrow> (string, PartOrder list) gomap \<Rightarrow> string \<Rightarrow> written" where
  "printRack g racks rackName =
     (case forEach (printPartOrder g) (index [] racks rackName) of
        (out, r) \<Rightarrow> (rackHeader @ rackName @ NL @ out, r))"

definition printRacksAndOrders :: "globals \<Rightarrow> (string, PartOrder list) gomap \<Rightarrow> written" where
  "printRacksAndOrders g racks =
     (case forEach (printRack g racks) (getSortedRacksNames racks) of
        (out, r) \<Rightarrow> (banner @ NL @ out, r))"

subsection \<open>solve\<close>

datatype outcome = Exit0 | Fatal error | Panicked panic

record ranges =
  rangeMainRacks :: "int list \<Rightarrow> int list"
  rangeOrders :: "(int, PartOrder list) gomap \<Rightarrow> (int, PartOrder list) gomap"

text \<open>A run of the program on \<^verbatim>\<open>os.Args\<close>: what it writes to standard output and how it
  ends. \<^verbatim>\<open>logrus.Fatalf\<close> logs the error and exits with status 1.\<close>

definition solve :: "db \<Rightarrow> ranges \<Rightarrow> string list \<Rightarrow> string \<times> outcome" where
  "solve d rg args =
     (if length args < 2 then ([], Panicked IndexOutOfRange)
      else
        (let orderIDs = parseOrderIDs (args ! 1);
             g0 = \<lparr>mainRacks = [], secondaryRacks = []\<rparr>
         in case getOrders d orderIDs g0 of
              (Inl e, g1) \<Rightarrow> ([], Fatal e)
            | (Inr orders, g1) \<Rightarrow>
                (case initRacks d (rangeMainRacks rg) g1 of
                   (Some e, g2) \<Rightarrow> ([], Fatal e)
                 | (None, g2) \<Rightarrow>
                     (case groupOrdersByRack g2 (rangeOrders rg orders) of
                        Inl e \<Rightarrow> ([], Fatal e)
                      | Inr racks \<Rightarrow>
                          (case printRacksAndOrders g2 racks of
                             (out, None) \<Rightarrow> (out, Exit0)
                           | (out, Some p) \<Rightarrow> (out, Panicked p))))))"

section \<open>The version with rack identifiers\<close>

text \<open>This version reads the tables \<^verbatim>\<open>order_product\<close>, \<^verbatim>\<open>product\<close>,
  \<^verbatim>\<open>product_rack\<close> and \<^verbatim>\<open>rack\<close> of the migration; its rack maps hold rack
  identifiers, and the names are looked up in \<open>racksNames\<close>.\<close>

record PartOrder_ids =
  OrderID_ids :: int
  ProductID_ids :: int
  Quantity_ids :: int

record globals_ids =
  productsNames_ids :: "(int, string) gomap"
  racksNames_ids :: "(int, string) gomap"
  mainRacks_ids :: "(int, int) gomap"
  secondaryRacks_ids :: "(int, int list) gomap"

record db_ids =
  QueryOrders_ids :: "int list \<Rightarrow> (int \<times> int \<times> int) response"
  QueryProducts_ids :: "int list \<Rightarrow> (int \<times> string) response"
  QueryProductRacks_ids :: "int list \<Rightarrow> (int \<times> int \<times> bool) response"
  QueryRacks_ids :: "int list \<Rightarrow> (int \<times> string) response"

fun getOrdersRows_ids ::
  "(int \<times> int \<times> int) scan list \<Rightarrow> (int, PartOrder_ids list) gomap \<Rightarrow> globals_ids
     \<Rightarrow> (error + (int, PartOrder_ids list) gomap) \<times> globals_ids" where
  "getOrdersRows_ids [] orders g = (Inr orders, g)"
| "getOrdersRows_ids (ScanFailed e # rest) orders g = (Inl (FailedScanOrderRow e), g)"
| "getOrdersRows_ids (Scanned (oid, pid, qty) # rest) orders g =
     (let partOrder = \<lparr>OrderID_ids = oid, ProductID_ids = pid, Quantity_ids = qty\<rparr>
      in getOrdersRows_ids rest
           (assign orders oid (index [] orders oid @ [partOrder]))
           (g\<lparr>productsNames_ids := assign (productsNames_ids g) pid []\<rparr>))"

definition getOrders_ids ::
  "db_ids \<Rightarrow> int list \<Rightarrow> globals_ids
     \<Rightarrow> (error + (int, PartOrder_ids list) gomap) \<times> globals_ids" where
  "getOrders_ids d orderIDs g =
     (case QueryOrders_ids d orderIDs of
        QueryFailed e \<Rightarrow> (Inl (FailedQueryOrders e), g)
      | Rows rs final \<Rightarrow>
          (case getOrdersRows_ids rs [] g of
             (Inl e, g') \<Rightarrow> (Inl e, g')
           | (Inr orders, g') \<Rightarrow>
               (case final of
                  Some e \<Rightarrow> (Inl (FailedIterateOrderRows e), g')
                | None \<Rightarrow> (Inr orders, g'))))"

fun initProductsNamesRows_ids ::
  "(int \<times> string) scan list \<Rightarrow> globals_ids \<Rightarrow> error option \<times> globals_ids" where
  "initProductsNamesRows_ids [] g = (None, g)"
| "initProductsNamesRows_ids (ScanFailed e # rest) g = (Some (Plain e), g)"
| "initProductsNamesRows_ids (Scanned (productID, productName) # rest) g =
     initProductsNamesRows_ids rest
       (g\<lparr>productsNames_ids := assign (productsNames_ids g) productID productName\<rparr>)"

definition initProductsNames_ids ::
  "db_ids \<Rightarrow> int list \<Rightarrow> globals_ids \<Rightarrow> error option \<times> globals_ids" where
  "initProductsNames_ids d productIDs g =
     (case QueryProducts_ids d productIDs of
        QueryFailed e \<Rightarrow> (Some (Plain e), g)
      | Rows rs final \<Rightarrow>
          (case initProductsNamesRows_ids rs g of
             (Some e, g') \<Rightarrow> (Some e, g')
           | (None, g') \<Rightarrow>
               (case final of Some e \<Rightarrow> (Some (Plain e), g') | None \<Rightarrow> (None, g'))))"

fun initRacksNamesRows_ids ::
  "(int \<times> string) scan list \<Rightarrow> globals_ids \<Rightarrow> error option \<times> globals_ids" where
  "initRacksNamesRows_ids [] g = (None, g)"
| "initRacksNamesRows_ids (ScanFailed e # rest) g = (Some (Plain e), g)"
| "initRacksNamesRows_ids (Scanned (rackID, rackName) # rest) g =
     initRacksNamesRows_ids rest (g\<lparr>racksNames_ids := assign (racksNames_ids g) rackID rackName\<rparr>)"

text \<open>\<open>racksNames\<close> is made anew once the query has succeeded.\<close>

definition initRacksNames_ids ::
  "db_ids \<Rightarrow> int list \<Rightarrow> globals_ids \<Rightarrow> error option \<times> globals_ids" where
  "initRacksNames_ids d rackIDs g =
     (case QueryRacks_ids d rackIDs of
        QueryFailed e \<Rightarrow> (Some (Plain e), g)
      | Rows rs final \<Rightarrow>
          (case initRacksNamesRows_ids rs (g\<lparr>racksNames_ids := []\<rparr>) of
             (Some e, g') \<Rightarrow> (Some e, g')
           | (None, g') \<Rightarrow>
               (case final of Some e \<Rightarrow> (Some (Plain e), g') | None \<Rightarrow> (None, g'))))"

fun initRacksRows_ids ::
  "(int \<times> int \<times> bool) scan list \<Rightarrow> int list \<Rightarrow> globals_ids
     \<Rightarrow> (error + int list) \<times> globals_ids" where
  "initRacksRows_ids [] rackIDs g = (Inr rackIDs, g)"
| "initRacksRows_ids (ScanFailed e # rest) rackIDs g = (Inl (Plain e), g)"
| "initRacksRows_ids (Scanned (productID, rackID, isMain) # rest) rackIDs g =
     initRacksRows_ids rest (rackIDs @ [rackID])
       (if isMain then g\<lparr>mainRacks_ids := assign (mainRacks_ids g) productID rackID\<rparr>
        else g\<lparr>secondaryRacks_ids :=
               assign (secondaryRacks_ids g) productID
                 (index [] (secondaryRacks_ids g) productID @ [rackID])\<rparr>)"

text \<open>The error of \<open>initRacksNames\<close> is not looked at.\<close>

definition initRacks_ids ::
  "db_ids \<Rightarrow> int list \<Rightarrow> globals_ids \<Rightarrow> error option \<times> globals_ids" where
  "initRacks_ids d productIDs g =
     (case QueryProductRacks_ids d productIDs of
        QueryFailed e \<Rightarrow> (Some (Plain e), g)
      | Rows rs final \<Rightarrow>
          (case initRacksRows_ids rs [] g of
             (Inl e, g') \<Rightarrow> (Some e, g')
           | (Inr rackIDs, g') \<Rightarrow>
               (case final of
                  Some e \<Rightarrow> (Some (Plain e), g')
                | None \<Rightarrow> (None, snd (initRacksNames_ids d rackIDs g')))))"

definition appendPart_ids ::
  "globals_ids \<Rightarrow> (string, PartOrder_ids list) gomap \<Rightarrow> PartOrder_ids
     \<Rightarrow> (string, PartOrder_ids list) gomap" where
  "appendPart_ids g racks partOrder =
     (let rackID = index 0 (mainRacks_ids g) (ProductID_ids partOrder);
          rackName = index [] (racksNames_ids g) rackID
      in assign racks rackName (index [] racks rackName @ [partOrder]))"

definition groupOrdersByRack_ids ::
  "globals_ids \<Rightarrow> (int, PartOrder_ids list) gomap
     \<Rightarrow> error + (string, PartOrder_ids list) gomap" where
  "groupOrdersByRack_ids g orders =
     Inr (foldl (\<lambda>racks (orderID, partOrderList). foldl (appendPart_ids g) racks partOrderList)
            [] orders)"

definition printPartOrder_ids :: "globals_ids \<Rightarrow> PartOrder_ids \<Rightarrow> written" where
  "printPartOrder_ids g partOrder =
     (let productID = ProductID_ids partOrder;
          productName = index [] (productsNames_ids g) productID;
          head = productName @ '' (id='' @ fmtInt productID @ '')'' @ NL @
                 orderWord @ fmtInt (OrderID_ids partOrder) @ '', '' @
                 fmtInt (Quantity_ids partOrder) @ piecesWord @ NL
      in case printAdditionalRacks
                (map (\<lambda>secondaryRackID. index [] (racksNames_ids g) secondaryRackID)
                   (index [] (secondaryRacks_ids g) productID)) of
           (out, Some p) \<Rightarrow> (head @ out, Some p)
         | (out, None) \<Rightarrow> (head @ out @ NL, None))"

definition printRack_ids ::
  "globals_ids \<Rightarrow> (string, PartOrder_ids list) gomap \<Rightarrow> string \<Rightarrow> written" where
  "printRack_ids g racks rackName =
     (case forEach (printPartOrder_ids g) (index [] racks rackName) of
        (out, r) \<Rightarrow> (rackHeader @ rackName @ NL @ out, r))"

definition printRacksAndOrders_ids ::
  "globals_ids \<Rightarrow> (string, PartOrder_ids list) gomap \<Rightarrow> written" where
  "printRacksAndOrders_ids g racks =
     (case forEach (printRack_ids g racks) (getSortedRacksNames racks) of
        (out, r) \<Rightarrow> (banner @ NL @ out, r))"

section \<open>The version that goes through the store\<close>

text \<open>Here every lookup is a call of the sqlc store. The store is not part of the
  sources at hand; it is a parameter, a record of the four operations the program calls.
  Each returns what the generated code returns: the rows, or an error.\<close>

record Order_sqlc =
  ProductID_sqlc :: int
  Quantity_sqlc :: int

record Product_sqlc =
  ID_sqlc :: int
  Name_sqlc :: string

record Rack_sqlc =
  RackProductID_sqlc :: int
  RackName_sqlc :: string
  IsMain_sqlc :: bool

record store =
  GetOrder :: "int \<Rightarrow> dberr + Order_sqlc list"
  GetProduct :: "int \<Rightarrow> dberr + Product_sqlc"
  GetMainRack :: "int \<Rightarrow> dberr + Rack_sqlc"
  GetSecondaryRacks :: "int \<Rightarrow> dberr + Rack_sqlc list"

record Product_store =
  ID_store :: int
  Name_store :: string
  Quantity_store :: int
  SecondaryRacks_store :: "string list"

record PartOrder_store =
  OrderID_store :: int
  Product_store :: Product_store

text \<open>The package-level cache \<open>productsName\<close> is threaded through.\<close>

definition getProductName ::
  "store \<Rightarrow> int \<Rightarrow> (int, string) gomap \<Rightarrow> (error + string) \<times> (int, string) gomap" where
  "getProductName st i productsName =
     (case map_of productsName i of
        Some name \<Rightarrow> (Inr name, productsName)
      | None \<Rightarrow>
          (case GetProduct st i of
             Inl e \<Rightarrow> (Inl (FailedGetProduct i e), productsName)
           | Inr productSQLC \<Rightarrow>
               (let productsName' = assign productsName i (Name_sqlc productSQLC)
                in (Inr (index [] productsName' i), productsName'))))"

fun getOrderProducts ::
  "store \<Rightarrow> Order_sqlc list \<Rightarrow> Product_store list \<Rightarrow> (int, string) gomap
     \<Rightarrow> (error + Product_store list) \<times> (int, string) gomap" where
  "getOrderProducts st [] products productsName = (Inr products, productsName)"
| "getOrderProducts st (sqlcOrder # rest) products productsName =
     (case getProductName st (ProductID_sqlc sqlcOrder) productsName of
        (Inl e, productsName') \<Rightarrow> (Inl e, productsName')
      | (Inr productName, productsName') \<Rightarrow>
          getOrderProducts st rest
            (products @ [\<lparr>ID_store = ProductID_sqlc sqlcOrder, Name_store = productName,
                           Quantity_store = Quantity_sqlc sqlcOrder,
                           SecondaryRacks_store = []\<rparr>])
            productsName')"

fun getOrdersLoop_store ::
  "store \<Rightarrow> int list \<Rightarrow> (int, Product_store list) gomap \<Rightarrow> (int, string) gomap
     \<Rightarrow> (error + (int, Product_store list) gomap) \<times> (int, string) gomap" where
  "getOrdersLoop_store st [] orders productsName = (Inr orders, productsName)"
| "getOrdersLoop_store st (orderID # rest) orders productsName =
     (case GetOrder st orderID of
        Inl e \<Rightarrow> (Inl (FailedGetOrder orderID e), productsName)
      | Inr ordersSQLC \<Rightarrow>
          (case getOrderProducts st ordersSQLC [] productsName of
             (Inl e, productsName') \<Rightarrow> (Inl e, productsName')
           | (Inr products, productsName') \<Rightarrow>
               getOrdersLoop_store st rest (assign orders orderID products) productsName'))"

definition getOrders_store ::
  "store \<Rightarrow> int list \<Rightarrow> (int, string) gomap
     \<Rightarrow> (error + (int, Product_store list) gomap) \<times> (int, string) gomap" where
  "getOrders_store st orderIDs productsName = getOrdersLoop_store st orderIDs [] productsName"

text \<open>
  \<open>groupOrdersByRack\<close> appends \<^verbatim>\<open>PartOrder{ID: orderID, Product: product}\<close> to the bucket
  and afterwards writes the names of the secondary racks into \<^verbatim>\<open>product.SecondaryRacks\<close>
  through the pointer. \<open>getOrders\<close> allocates one \<^verbatim>\<open>Product\<close> per row and the loop visits
  each once, so the bucket entry is the only other reference to it: the entry is embedded
  as the value the product has when the function returns. The order of the two store
  calls and of their error exits is the source's.
\<close>

fun groupProducts_store ::
  "store \<Rightarrow> int \<Rightarrow> Product_store list \<Rightarrow> (string, PartOrder_store list) gomap
     \<Rightarrow> error + (string, PartOrder_store list) gomap" where
  "groupProducts_store st orderID [] racks = Inr racks"
| "groupProducts_store st orderID (product # rest) racks =
     (case GetMainRack st (ID_store product) of
        Inl e \<Rightarrow> Inl (FailedGetMainRack (ID_store product) e)
      | Inr rack \<Rightarrow>
          (case GetSecondaryRacks st (ID_store product) of
             Inl e \<Rightarrow> Inl (FailedGetSecondaryRacks (ID_store product) e)
           | Inr secondaryRacksSQLC \<Rightarrow>
               groupProducts_store st orderID rest
                 (assign racks (RackName_sqlc rack)
                    (index [] racks (RackName_sqlc rack) @
                     [\<lparr>OrderID_store = orderID,
                       Product_store = product\<lparr>SecondaryRacks_store :=
                         SecondaryRacks_store product @ map RackName_sqlc secondaryRacksSQLC\<rparr>\<rparr>]))))"

fun groupOrders_store ::
  "store \<Rightarrow> (int, Product_store list) gomap \<Rightarrow> (string, PartOrder_store list) gomap
     \<Rightarrow> error + (string, PartOrder_store list) gomap" where
  "groupOrders_store st [] racks = Inr racks"
| "groupOrders_store st ((orderID, products) # rest) racks =
     (case groupProducts_store st orderID products racks of
        Inl e \<Rightarrow> Inl e
      | Inr racks' \<Rightarrow> groupOrders_store st rest racks')"

definition groupOrdersByRack_store ::
  "store \<Rightarrow> (int, Product_store list) gomap \<Rightarrow> error + (string, PartOrder_store list) gomap" where
  "groupOrdersByRack_store st orders = groupOrders_store st orders []"

definition printPartOrder_store :: "PartOrder_store \<Rightarrow> written" where
  "printPartOrder_store partOrder =
     (let orderID = OrderID_store partOrder; product = Product_store partOrder;
          head = Name_store product @ '' (id='' @ fmtInt (ID_store product) @ '')'' @ NL @
                 orderWord @ fmtInt orderID @ '', '' @ fmtInt (Quantity_store product) @
                 piecesWord @ NL
      in case printAdditionalRacks (SecondaryRacks_store product) of
           (out, Some p) \<Rightarrow> (head @ out, Some p)
         | (out, None) \<Rightarrow> (head @ out @ NL, None))"

definition printRack_store :: "string \<times> PartOrder_store list \<Rightarrow> written" where
  "printRack_store entry =
     (case entry of (rackName, listPartOrder) \<Rightarrow>
        (case forEach printPartOrder_store listPartOrder of
           (out, r) \<Rightarrow> (rackHeader @ rackName @ NL @ out, r)))"

text \<open>This version ranges over the map \<open>racks\<close> itself: the argument lists its entries in
  the order \<^verbatim>\<open>range\<close> visits them.\<close>

definition printRacksAndOrders_store :: "(string, PartOrder_store list) gomap \<Rightarrow> written" where
  "printRacksAndOrders_store racks =
     (case forEach printRack_store racks of (out, r) \<Rightarrow> (banner @ NL @ out, r))"

record ranges_store =
  rangeOrders_store :: "(int, Product_store list) gomap \<Rightarrow> (int, Product_store list) gomap"
  rangeRacks_store ::
    "(string, PartOrder_store list) gomap \<Rightarrow> (string, PartOrder_store list) gomap"

definition solve_store ::
  "store \<Rightarrow> ranges_store \<Rightarrow> (int, string) gomap \<Rightarrow> string list \<Rightarrow> string \<times> outcome" where
  "solve_store st rg productsName args =
     (if length args < 2 then ([], Panicked IndexOutOfRange)
      else
        (let orderIDs = parseOrderIDs (args ! 1)
         in case getOrders_store st orderIDs productsName of
              (Inl e, cache) \<Rightarrow> ([], Fatal e)
            | (Inr orders, cache) \<Rightarrow>
                (case groupOrdersByRack_store st (rangeOrders_store rg orders) of
                   Inl e \<Rightarrow> ([], Fatal e)
                 | Inr racks \<Rightarrow>
                     (case printRacksAndOrders_store (rangeRacks_store rg racks) of
                        (out, None) \<Rightarrow> (out, Exit0)
                      | (out, Some p) \<Rightarrow> (out, Panicked p)))))"

text \<open>A \<^verbatim>\<open>range\<close> visits every entry of a map once, in some order.\<close>

definition visitsAll :: "('a list \<Rightarrow> 'a list) \<Rightarrow> bool" where
  "visitsAll f = (\<forall>m. mset (f m) = mset m)"

section \<open>Vocabulary of the statements\<close>

text \<open>Appending each element of a list to the bucket of its key: the shape every
  grouping loop has.\<close>

definition bucketStep :: "('a \<Rightarrow> 'k) \<Rightarrow> ('a \<Rightarrow> 'b) \<Rightarrow> ('k, 'b list) gomap \<Rightarrow> 'a \<Rightarrow> ('k, 'b list) gomap" where
  "bucketStep key val racks x = assign racks (key x) (index [] racks (key x) @ [val x])"

text \<open>For the store version: the line items of an order map, the name of a product's main
  rack as the store gives it, the bucket entry a line item becomes, and the condition that
  the store answers both rack lookups of a product.\<close>

definition lineItems_store :: "(int, Product_store list) gomap \<Rightarrow> (int \<times> Product_store) list" where
  "lineItems_store orders = concat (map (\<lambda>(orderID, products). map (Pair orderID) products) orders)"

definition mainRackName_store :: "store \<Rightarrow> Product_store \<Rightarrow> string" where
  "mainRackName_store st p = (case GetMainRack st (ID_store p) of Inl e \<Rightarrow> [] | Inr rack \<Rightarrow> RackName_sqlc rack)"

definition entry_store :: "store \<Rightarrow> int \<times> Product_store \<Rightarrow> PartOrder_store" where
  "entry_store st x =
     (case x of (orderID, p) \<Rightarrow>
        \<lparr>OrderID_store = orderID,
         Product_store = p\<lparr>SecondaryRacks_store := SecondaryRacks_store p @
           (case GetSecondaryRacks st (ID_store p) of Inl e \<Rightarrow> [] | Inr rs \<Rightarrow> map RackName_sqlc rs)\<rparr>\<rparr>)"

definition resolvable :: "store \<Rightarrow> Product_store \<Rightarrow> bool" where
  "resolvable st p = ((\<exists>rack. GetMainRack st (ID_store p) = Inr rack) \<and> (\<exists>rs. GetSecondaryRacks st (ID_store p) = Inr rs))"

text \<open>The names of the secondary racks of a product in the answer to the racks query:
  the rows of the product that are not marked main, in the order returned.\<close>

fun secondaryNames :: "rackRow scan list \<Rightarrow> int \<Rightarrow> string list" where
  "secondaryNames [] pid = []"
| "secondaryNames (ScanFailed e # rest) pid = secondaryNames rest pid"
| "secondaryNames (Scanned (productID, rackName, isMain) # rest) pid =
     (if productID = pid \<and> \<not> isMain then rackName # secondaryNames rest pid
      else secondaryNames rest pid)"

text \<open>A list of names, written with a comma between neighbours.\<close>

fun commaJoin :: "string list \<Rightarrow> string" where
  "commaJoin [] = []"
| "commaJoin [n] = n"
| "commaJoin (n # m # rest) = n @ '','' @ commaJoin (m # rest)"

text \<open>The two lines every pick entry starts with.\<close>

definition entryHead :: "PartOrder \<Rightarrow> string" where
  "entryHead po =
     Name (Product po) @ '' (id='' @ fmtInt (ID (Product po)) @ '')'' @ NL @
     orderWord @ fmtInt (OrderID po) @ '', '' @ fmtInt (Quantity po) @ piecesWord @ NL"

text \<open>The text of a pick entry as the claim describes it: the two head lines, then, when
  the answer to the racks query holds secondary racks for the product, the label with
  their names in the order returned, and the blank line.\<close>

definition renderedEntry :: "rackRow scan list \<Rightarrow> PartOrder \<Rightarrow> string" where
  "renderedEntry rs po =
     entryHead po @
     (if secondaryNames rs (ID (Product po)) = [] then []
      else extraRackWord @ commaJoin (secondaryNames rs (ID (Product po))) @ NL) @ NL"

text \<open>Whether the answer to the racks query holds a row marked main for a product.\<close>

definition hasMainRack :: "rackRow scan list \<Rightarrow> int \<Rightarrow> bool" where
  "hasMainRack rs pid = (\<exists>rackName. Scanned (pid, rackName, True) \<in> set rs)"

text \<open>Whether the answer to the orders query holds a row of an order.\<close>

definition orderHasRows :: "orderRow scan list \<Rightarrow> int \<Rightarrow> bool" where
  "orderHasRows rs orderID = (\<exists>pid qty pname. Scanned (orderID, pid, qty, pname) \<in> set rs)"

text \<open>The store answers the lookup of an order and the name lookups of its products.\<close>

definition orderResolvable :: "store \<Rightarrow> int \<Rightarrow> bool" where
  "orderResolvable st orderID =
     (\<exists>rows. GetOrder st orderID = Inr rows \<and>
        list_all (\<lambda>r. \<exists>p. GetProduct st (ProductID_sqlc r) = Inr p) rows)"

text \<open>A token is a valid integer when it is a non-empty run of decimal digits after at most
  one sign. \<open>unsigned\<close> is the token without its sign, \<open>decimalFrom n\<close> the number a run
  of digits denotes when it continues the number \<open>n\<close>.\<close>

definition unsigned :: "string \<Rightarrow> string" where
  "unsigned s = (if s \<noteq> [] \<and> (hd s = CHR ''+'' \<or> hd s = CHR ''-'') then tl s else s)"

definition validInteger :: "string \<Rightarrow> bool" where
  "validInteger s = (unsigned s \<noteq> [] \<and> list_all isDigit (unsigned s))"

definition decimalFrom :: "int \<Rightarrow> string \<Rightarrow> int" where
  "decimalFrom n ds = foldl (\<lambda>n c. n * 10 + digitVal c) n ds"

text \<open>Modelled from the spec: \<^verbatim>\<open>Store.GetMainRack\<close>, which sqlc generates from the query
  \<^verbatim>\<open>GetMainRack :one\<close> of \<^verbatim>\<open>db/query/racks.sql\<close> and which is not among the sources. The
  spec: "fails with RackNotFoundError if the product has no rack marked main"; otherwise
  it returns the first row of the table \<^verbatim>\<open>racks\<close> of that product that is marked main.\<close>

definition GetMainRack_spec :: "Rack_sqlc list \<Rightarrow> int \<Rightarrow> dberr + Rack_sqlc" where
  "GetMainRack_spec racksTable productID =
     (case find (\<lambda>rack. RackProductID_sqlc rack = productID \<and> IsMain_sqlc rack) racksTable of
        None \<Rightarrow> Inl (DBErr ''RackNotFoundError'')
      | Some rack \<Rightarrow> Inr rack)"

text \<open>Whether the table holds a row marked main for a product.\<close>

definition hasMainRack_store :: "Rack_sqlc list \<Rightarrow> int \<Rightarrow> bool" where
  "hasMainRack_store racksTable productID =
     list_ex (\<lambda>rack. RackProductID_sqlc rack = productID \<and> IsMain_sqlc rack) racksTable"

section \<open>Example data\<close>

text \<open>A database that answers a query \<^verbatim>\<open>WHERE key = ANY($1)\<close> with the rows of a table
  whose key is in the array, in the order of the table, and without an error.\<close>

definition answer :: "('r \<Rightarrow> int) \<Rightarrow> 'r list \<Rightarrow> int list \<Rightarrow> 'r response" where
  "answer key table ids = Rows (map Scanned (filter (\<lambda>row. key row \<in> set ids) table)) None"

text \<open>The scenario of two orders: order 1 holds product 10 (quantity 3, main rack A),
  order 2 holds product 20 (quantity 1, main rack B, secondary rack C).\<close>

definition exStore :: store where
  "exStore =
     \<lparr>GetOrder = (\<lambda>i. if i = 1 then Inr [\<lparr>ProductID_sqlc = 10, Quantity_sqlc = 3\<rparr>]
                        else if i = 2 then Inr [\<lparr>ProductID_sqlc = 20, Quantity_sqlc = 1\<rparr>]
                        else Inr []),
      GetProduct = (\<lambda>i. Inr \<lparr>ID_sqlc = i, Name_sqlc = (if i = 10 then ''bolt'' else ''nut'')\<rparr>),
      GetMainRack = (\<lambda>i. if i = 10 then Inr \<lparr>RackProductID_sqlc = 10, RackName_sqlc = ''A'', IsMain_sqlc = True\<rparr>
                           else if i = 20 then Inr \<lparr>RackProductID_sqlc = 20, RackName_sqlc = ''B'', IsMain_sqlc = True\<rparr>
                           else Inl (DBErr ''sql: no rows in result set'')),
      GetSecondaryRacks = (\<lambda>i. if i = 20 then Inr [\<lparr>RackProductID_sqlc = 20, RackName_sqlc = ''C'', IsMain_sqlc = False\<rparr>]
                                 else Inr [])\<rparr>"

definition exOrders_store :: "(int, Product_store list) gomap" where
  "exOrders_store =
     [(1, [\<lparr>ID_store = 10, Name_store = ''bolt'', Quantity_store = 3, SecondaryRacks_store = []\<rparr>]),
      (2, [\<lparr>ID_store = 20, Name_store = ''nut'', Quantity_store = 1, SecondaryRacks_store = []\<rparr>])]"

text \<open>The same scenario as the database of \<^verbatim>\<open>cmd/main.go\<close> answers it, two orders of
  the map, and two ways to range over a map: in the order it was built, and reversed.\<close>

definition exPart1 :: PartOrder where
  "exPart1 = \<lparr>OrderID = 1, Product = \<lparr>ID = 10, Name = ''bolt''\<rparr>, Quantity = 3\<rparr>"

definition exPart2 :: PartOrder where
  "exPart2 = \<lparr>OrderID = 2, Product = \<lparr>ID = 20, Name = ''nut''\<rparr>, Quantity = 1\<rparr>"

definition exDb :: db where
  "exDb =
     \<lparr>QueryOrders = answer fst [(1, 10, 3, ''bolt''), (2, 20, 1, ''nut'')],
      QueryRacks = answer fst [(10, ''A'', True), (20, ''B'', True), (20, ''C'', False)]\<rparr>"

definition rangeAsBuilt :: ranges where
  "rangeAsBuilt = \<lparr>rangeMainRacks = (\<lambda>ks. ks), rangeOrders = (\<lambda>m. m)\<rparr>"

definition rangeReversed :: ranges where
  "rangeReversed = \<lparr>rangeMainRacks = (\<lambda>ks. ks), rangeOrders = rev\<rparr>"

definition rangeRacksReversed :: ranges_store where
  "rangeRacksReversed = \<lparr>rangeOrders_store = (\<lambda>m. m), rangeRacks_store = rev\<rparr>"

text \<open>The database of the version with rack identifiers in which product 10 has its main
  rack, rack 0 named A, and product 20 has no rack at all; order 1 holds both products.\<close>

definition exDb_ids :: db_ids where
  "exDb_ids =
     \<lparr>QueryOrders_ids = answer fst [(1, 10, 3), (1, 20, 1)],
      QueryProducts_ids = answer fst [(10, ''bolt''), (20, ''nut'')],
      QueryProductRacks_ids = answer fst [(10, 0, True)],
      QueryRacks_ids = answer fst [(0, ''A'')]\<rparr>"

definition exPart10_ids :: PartOrder_ids where
  "exPart10_ids = \<lparr>OrderID_ids = 1, ProductID_ids = 10, Quantity_ids = 3\<rparr>"

definition exPart20_ids :: PartOrder_ids where
  "exPart20_ids = \<lparr>OrderID_ids = 1, ProductID_ids = 20, Quantity_ids = 1\<rparr>"

text \<open>The same data with rack 7 in the place of rack 0, as the loaded maps.\<close>

definition exGlobals_ids :: globals_ids where
  "exGlobals_ids =
     \<lparr>productsNames_ids = [(10, ''bolt''), (20, ''nut'')], racksNames_ids = [(7, ''A'')],
      mainRacks_ids = [(10, 7)], secondaryRacks_ids = []\<rparr>"

text \<open>A database of \<^verbatim>\<open>cmd/main.go\<close> in which product 20 of order 1 has a secondary rack
  but no main rack.\<close>

definition exDbNoMain :: db where
  "exDbNoMain =
     \<lparr>QueryOrders = answer fst [(1, 10, 3, ''bolt''), (1, 20, 1, ''nut'')],
      QueryRacks = answer fst [(10, ''A'', True), (20, ''C'', False)]\<rparr>"

definition exPartNoMain :: PartOrder where
  "exPartNoMain = \<lparr>OrderID = 1, Product = \<lparr>ID = 20, Name = ''nut''\<rparr>, Quantity = 1\<rparr>"

text \<open>The store of the example over a table of racks in which product 20 has only its
  secondary rack.\<close>

definition exRacksTable :: "Rack_sqlc list" where
  "exRacksTable =
     [\<lparr>RackProductID_sqlc = 10, RackName_sqlc = ''A'', IsMain_sqlc = True\<rparr>,
      \<lparr>RackProductID_sqlc = 20, RackName_sqlc = ''C'', IsMain_sqlc = False\<rparr>]"

definition exStoreNoMain :: store where
  "exStoreNoMain = exStore\<lparr>GetMainRack := GetMainRack_spec exRacksTable\<rparr>"

definition rangeAsBuilt_store :: ranges_store where
  "rangeAsBuilt_store = \<lparr>rangeOrders_store = (\<lambda>m. m), rangeRacks_store = (\<lambda>m. m)\<rparr>"

text \<open>A database of \<^verbatim>\<open>cmd/main.go\<close> in which orders 1 and 2 both hold product 10, kept on
  rack A.\<close>

definition exDbSameRack :: db where
  "exDbSameRack =
     \<lparr>QueryOrders = answer fst [(1, 10, 3, ''bolt''), (2, 10, 1, ''bolt'')],
      QueryRacks = answer fst [(10, ''A'', True)]\<rparr>"

text \<open>A database of \<^verbatim>\<open>cmd/main.go\<close> with products of no, two and one secondary rack.\<close>

definition exDbSecondary :: db where
  "exDbSecondary =
     \<lparr>QueryOrders = answer fst [(1, 10, 3, ''bolt''), (2, 20, 1, ''nut''), (2, 30, 5, ''gear'')],
      QueryRacks = answer fst [(10, ''A'', True), (20, ''B'', True), (20, ''C'', False),
                               (30, ''E'', False), (20, ''D'', False), (30, ''B'', True)]\<rparr>"

section \<open>Maps and buckets\<close>

lemma index_assign: "index z (assign m k v) k' = (if k' = k then v else index z m k')"
  by (simp add: index_def assign_def update_conv')

lemma keys_assign: "set (map fst (assign m k v)) = insert k (set (map fst m))"
  by (auto simp: assign_def update_keys)

lemma distinct_assign: "distinct (map fst m) \<Longrightarrow> distinct (map fst (assign m k v))"
  by (simp add: assign_def distinct_update)

lemma index_empty: "index z [] k = z"
  by (simp add: index_def)

lemma index_absent: "k \<notin> set (map fst m) \<Longrightarrow> index z m k = z"
  by (simp add: index_def map_of_eq_None_iff [THEN iffD2])

lemma mset_values_assign:
  "mset (concat (map snd (assign m k (index [] m k @ [p])))) = mset (concat (map snd m)) + {#p#}"
proof (induction m)
  case Nil
  then show ?case by (simp add: assign_def index_def)
next
  case (Cons a m)
  obtain k' v' where a: "a = (k', v')" by (cases a)
  show ?case
  proof (cases "k' = k")
    case True
    then show ?thesis using a by (simp add: assign_def index_def)
  next
    case False
    have "index [] (a # m) k = index [] m k" using False a by (simp add: index_def)
    then show ?thesis using Cons False a by (simp add: assign_def)
  qed
qed

lemma bucket_index:
  "index [] (foldl (bucketStep key val) racks xs) k
   = index [] racks k @ map val (filter (\<lambda>x. key x = k) xs)"
  by (induction xs arbitrary: racks) (auto simp: bucketStep_def index_assign)

lemma bucket_distinct:
  "distinct (map fst racks) \<Longrightarrow> distinct (map fst (foldl (bucketStep key val) racks xs))"
  by (induction xs arbitrary: racks) (auto simp: bucketStep_def distinct_assign)

lemma bucket_keys:
  "set (map fst (foldl (bucketStep key val) racks xs)) = set (map fst racks) \<union> key ` set xs"
  by (induction xs arbitrary: racks) (simp_all add: bucketStep_def keys_assign del: set_map)

lemma bucket_mset:
  "mset (concat (map snd (foldl (bucketStep key val) racks xs)))
   = mset (concat (map snd racks)) + mset (map val xs)"
  by (induction xs arbitrary: racks) (simp_all add: bucketStep_def mset_values_assign)

lemma appendPart_bucket:
  "appendPart g = bucketStep (\<lambda>p. index [] (mainRacks g) (ID (Product p))) (\<lambda>p. p)"
  by (intro ext) (simp add: appendPart_def bucketStep_def Let_def)

lemma appendPart_ids_bucket:
  "appendPart_ids g = bucketStep (\<lambda>p. index [] (racksNames_ids g) (index 0 (mainRacks_ids g) (ProductID_ids p))) (\<lambda>p. p)"
  by (intro ext) (simp add: appendPart_ids_def bucketStep_def Let_def)

lemma groupOrdersByRack_flat:
  "groupOrdersByRack g orders = Inr (foldl (appendPart g) [] (concat (map snd orders)))"
proof -
  have "foldl (\<lambda>racks (orderID, l). foldl (appendPart g) racks l) acc orders
        = foldl (appendPart g) acc (concat (map snd orders))" for acc
    by (induction orders arbitrary: acc) (auto split: prod.splits)
  then show ?thesis by (simp add: groupOrdersByRack_def)
qed

lemma groupOrdersByRack_ids_flat:
  "groupOrdersByRack_ids g orders = Inr (foldl (appendPart_ids g) [] (concat (map snd orders)))"
proof -
  have "foldl (\<lambda>racks (orderID, l). foldl (appendPart_ids g) racks l) acc orders
        = foldl (appendPart_ids g) acc (concat (map snd orders))" for acc
    by (induction orders arbitrary: acc) (auto split: prod.splits)
  then show ?thesis by (simp add: groupOrdersByRack_ids_def)
qed

lemma groupProducts_store_ok:
  "\<forall>p \<in> set ps. resolvable st p \<Longrightarrow>
   groupProducts_store st orderID ps racks
   = Inr (foldl (bucketStep (\<lambda>x. mainRackName_store st (snd x)) (entry_store st)) racks (map (Pair orderID) ps))"
proof (induction ps arbitrary: racks)
  case Nil
  then show ?case by simp
next
  case (Cons p ps)
  from Cons.prems obtain rack rs where
    r: "GetMainRack st (ID_store p) = Inr rack" "GetSecondaryRacks st (ID_store p) = Inr rs"
    by (auto simp: resolvable_def)
  have rest: "\<forall>p \<in> set ps. resolvable st p" using Cons.prems by simp
  show ?case
    using r by (simp add: Cons.IH [OF rest] bucketStep_def mainRackName_store_def entry_store_def)
qed

lemma lineItems_store_Nil: "lineItems_store [] = []"
  by (simp add: lineItems_store_def)

lemma lineItems_store_Cons:
  "lineItems_store ((orderID, ps) # orders) = map (Pair orderID) ps @ lineItems_store orders"
  by (simp add: lineItems_store_def)

lemma groupOrders_store_ok:
  "\<forall>x \<in> set (lineItems_store orders). resolvable st (snd x) \<Longrightarrow>
   groupOrders_store st orders racks
   = Inr (foldl (bucketStep (\<lambda>x. mainRackName_store st (snd x)) (entry_store st)) racks (lineItems_store orders))"
proof (induction orders arbitrary: racks)
  case Nil
  then show ?case by (simp add: lineItems_store_Nil)
next
  case (Cons a orders)
  obtain orderID ps where a: "a = (orderID, ps)" by (cases a)
  have ps: "\<forall>p \<in> set ps. resolvable st p"
    using Cons.prems a by (force simp: lineItems_store_Cons)
  have rest: "\<forall>x \<in> set (lineItems_store orders). resolvable st (snd x)"
    using Cons.prems a by (simp add: lineItems_store_Cons)
  show ?case
    using a by (simp add: groupProducts_store_ok [OF ps] Cons.IH [OF rest] lineItems_store_Cons)
qed

lemma in_bucket_iff:
  "racks = foldl (bucketStep key (\<lambda>p. p)) [] xs \<Longrightarrow>
   p \<in> set (index [] racks k) \<longleftrightarrow> p \<in> set xs \<and> key p = k"
  by (auto simp: bucket_index index_empty)

lemma map_of_assign: "map_of (assign m k v) x = (if x = k then Some v else map_of m x)"
  by (simp add: assign_def update_conv')

section \<open>Printing\<close>

lemma listAdditionalRacksStr_concat:
  "listAdditionalRacksStr names = concat (map (\<lambda>n. n @ '','') names)"
proof -
  have "foldl (\<lambda>acc n. acc @ n @ '','') acc names = acc @ concat (map (\<lambda>n. n @ '','') names)" for acc
    by (induction names arbitrary: acc) simp_all
  then show ?thesis by (simp add: listAdditionalRacksStr_def)
qed

lemma listAdditionalRacksStr_length:
  "length names \<le> length (listAdditionalRacksStr names)"
  unfolding listAdditionalRacksStr_concat by (induction names) simp_all

lemma sliceTo_butlast: "s \<noteq> [] \<Longrightarrow> sliceTo s (int (length s) - 1) = Inr (butlast s)"
  by (cases s rule: rev_cases) (simp_all add: sliceTo_def butlast_conv_take)

lemma printAdditionalRacks_ok: "snd (printAdditionalRacks names) = None"
proof (cases "names = []")
  case True
  then show ?thesis by (simp add: printAdditionalRacks_def)
next
  case False
  then have "listAdditionalRacksStr names \<noteq> []"
    using listAdditionalRacksStr_length [of names] by (cases names) auto
  then show ?thesis
    by (simp add: printAdditionalRacks_def Let_def sliceTo_butlast)
qed

lemma written_ok: "snd w = None \<Longrightarrow> w = (fst w, None)"
  by (cases w) simp

lemma forEach_ok:
  "(\<And>x. snd (f x) = None) \<Longrightarrow> forEach f xs = (concat (map (\<lambda>x. fst (f x)) xs), None)"
proof (induction xs)
  case Nil
  then show ?case by simp
next
  case (Cons x xs)
  have fx: "f x = (fst (f x), None)" using Cons.prems [of x] by (rule written_ok)
  have "forEach f (x # xs)
        = (case forEach f xs of (out', r) \<Rightarrow> (fst (f x) @ out', r))"
    by (subst forEach.simps, subst fx) simp
  then show ?case using Cons by simp
qed

lemma printPartOrder_ok: "snd (printPartOrder g po) = None"
  by (subst printPartOrder_def, subst written_ok [OF printAdditionalRacks_ok])
     (simp add: Let_def)

lemma printPartOrder_ids_ok: "snd (printPartOrder_ids g po) = None"
  by (subst printPartOrder_ids_def, subst written_ok [OF printAdditionalRacks_ok])
     (simp add: Let_def)

lemma printPartOrder_store_ok: "snd (printPartOrder_store po) = None"
  by (subst printPartOrder_store_def, subst written_ok [OF printAdditionalRacks_ok])
     (simp add: Let_def)

lemma printRack_ok: "snd (printRack g racks n) = None"
  by (simp add: printRack_def forEach_ok [of "printPartOrder g", OF printPartOrder_ok])

lemma printRack_ids_ok: "snd (printRack_ids g racks n) = None"
  by (simp add: printRack_ids_def forEach_ok [of "printPartOrder_ids g", OF printPartOrder_ids_ok])

lemma printRack_store_ok: "snd (printRack_store e) = None"
  by (simp add: printRack_store_def forEach_ok [of printPartOrder_store, OF printPartOrder_store_ok]
      split: prod.splits)

lemma printRacksAndOrders_ok: "snd (printRacksAndOrders g racks) = None"
  by (simp add: printRacksAndOrders_def forEach_ok [of "printRack g racks", OF printRack_ok])

lemma printRacksAndOrders_ids_ok: "snd (printRacksAndOrders_ids g racks) = None"
  by (simp add: printRacksAndOrders_ids_def
      forEach_ok [of "printRack_ids g racks", OF printRack_ids_ok])

lemma printRacksAndOrders_store_ok: "snd (printRacksAndOrders_store racks) = None"
  by (simp add: printRacksAndOrders_store_def forEach_ok [of printRack_store, OF printRack_store_ok])

lemma commaJoin_butlast:
  "names \<noteq> [] \<Longrightarrow> butlast (listAdditionalRacksStr names) = commaJoin names"
proof (induction names rule: commaJoin.induct)
  case 1
  then show ?case by simp
next
  case (2 n)
  then show ?case by (simp add: listAdditionalRacksStr_concat butlast_append)
next
  case (3 n m rest)
  have "listAdditionalRacksStr (n # m # rest) = (n @ '','') @ listAdditionalRacksStr (m # rest)"
    by (simp add: listAdditionalRacksStr_concat)
  moreover have "listAdditionalRacksStr (m # rest) \<noteq> []"
    by (simp add: listAdditionalRacksStr_concat)
  ultimately show ?case using 3 by (simp add: butlast_append)
qed

lemma printAdditionalRacks_render:
  "printAdditionalRacks names
   = ((if names = [] then [] else extraRackWord @ commaJoin names @ NL), None)"
proof (cases "names = []")
  case True
  then show ?thesis by (simp add: printAdditionalRacks_def)
next
  case False
  then have ne: "listAdditionalRacksStr names \<noteq> []"
    using listAdditionalRacksStr_length [of names] by (cases names) auto
  show ?thesis
    using False by (simp add: printAdditionalRacks_def Let_def sliceTo_butlast [OF ne] commaJoin_butlast)
qed

lemma printPartOrder_render:
  "printPartOrder g po
   = (entryHead po @
      (if index [] (secondaryRacks g) (ID (Product po)) = [] then []
       else extraRackWord @ commaJoin (index [] (secondaryRacks g) (ID (Product po))) @ NL) @ NL,
      None)"
  by (simp add: printPartOrder_def Let_def printAdditionalRacks_render entryHead_def)

lemma printRack_render:
  "printRack g racks n
   = (rackHeader @ n @ NL @ concat (map (\<lambda>p. fst (printPartOrder g p)) (index [] racks n)), None)"
  by (simp add: printRack_def forEach_ok [of "printPartOrder g", OF printPartOrder_ok])

lemma printRacksAndOrders_render:
  "printRacksAndOrders g racks
   = (banner @ NL @ concat (map (\<lambda>n. fst (printRack g racks n)) (getSortedRacksNames racks)), None)"
  by (simp add: printRacksAndOrders_def forEach_ok [of "printRack g racks", OF printRack_ok])

lemma getSortedRacksNames_range:
  "mset racks' = mset racks \<Longrightarrow> getSortedRacksNames racks' = getSortedRacksNames racks"
  unfolding getSortedRacksNames_def
  by (metis mset_map properties_for_sort sorted_sort mset_sort)

lemma printRacksAndOrders_entries:
  assumes "\<And>po. printPartOrder g po = (entry po, None)"
  shows "printRacksAndOrders g racks
         = (banner @ NL @
            concat (map (\<lambda>rackName. rackHeader @ rackName @ NL @
                           concat (map entry (index [] racks rackName)))
                      (getSortedRacksNames racks)),
            None)"
  by (simp add: printRacksAndOrders_render printRack_render assms)

lemma getSortedRacksNames_distinct:
  "distinct (map fst racks) \<Longrightarrow> distinct (getSortedRacksNames racks)"
  by (simp add: getSortedRacksNames_def)

section \<open>Loading the maps\<close>

lemma getOrdersRows_secondaryRacks:
  "getOrdersRows rs orders g = (r, g') \<Longrightarrow> secondaryRacks g' = secondaryRacks g"
  by (induction rs orders g rule: getOrdersRows.induct) (auto simp: Let_def)

lemma getOrders_secondaryRacks:
  "getOrders d orderIDs g = (r, g') \<Longrightarrow> secondaryRacks g' = secondaryRacks g"
  by (auto simp: getOrders_def split: response.splits prod.splits sum.splits option.splits
      dest: getOrdersRows_secondaryRacks)

lemma initRacksRows_secondaryRacks:
  "initRacksRows rs g = (None, g') \<Longrightarrow>
   index [] (secondaryRacks g') pid = index [] (secondaryRacks g) pid @ secondaryNames rs pid"
  by (induction rs g rule: initRacksRows.induct) (auto simp: index_assign)

lemma initRacks_secondaryRacks:
  "initRacks d keysOrder g = (None, g') \<Longrightarrow>
   QueryRacks d (keysOrder (map fst (mainRacks g))) = Rows rs final \<Longrightarrow>
   index [] (secondaryRacks g') pid = index [] (secondaryRacks g) pid @ secondaryNames rs pid"
  by (auto simp: initRacks_def Let_def split: prod.splits option.splits
      dest: initRacksRows_secondaryRacks)

lemma getOrdersRows_mainRacks:
  "getOrdersRows rs orders g = (r, g') \<Longrightarrow> index [] (mainRacks g) k = [] \<Longrightarrow>
   index [] (mainRacks g') k = []"
  by (induction rs orders g rule: getOrdersRows.induct) (auto simp: Let_def index_assign)

lemma getOrders_mainRacks:
  "getOrders d orderIDs g = (r, g') \<Longrightarrow> index [] (mainRacks g) k = [] \<Longrightarrow>
   index [] (mainRacks g') k = []"
  by (auto simp: getOrders_def split: response.splits prod.splits sum.splits option.splits
      dest: getOrdersRows_mainRacks)

lemma initRacksRows_mainRacks:
  "initRacksRows rs g = (r, g') \<Longrightarrow> \<not> hasMainRack rs pid \<Longrightarrow>
   index [] (mainRacks g') pid = index [] (mainRacks g) pid"
proof (induction rs g rule: initRacksRows.induct)
  case (1 g)
  then show ?case by simp
next
  case (2 e rest g)
  then show ?case by simp
next
  case (3 productID rackName isMain rest g)
  have rest: "\<not> hasMainRack rest pid"
    using "3.prems"(2) by (auto simp: hasMainRack_def)
  have here: "\<not> (productID = pid \<and> isMain)"
    using "3.prems"(2) by (auto simp: hasMainRack_def)
  show ?case
    using "3.IH" [OF _ rest] "3.prems"(1) here by (auto simp: index_assign)
qed

lemma initRacks_mainRacks:
  "initRacks d keysOrder g = (r, g') \<Longrightarrow>
   QueryRacks d (keysOrder (map fst (mainRacks g))) = Rows rs final \<Longrightarrow>
   \<not> hasMainRack rs pid \<Longrightarrow>
   index [] (mainRacks g') pid = index [] (mainRacks g) pid"
  by (auto simp: initRacks_def Let_def split: prod.splits option.splits
      dest: initRacksRows_mainRacks)

lemma getOrdersRows_ok:
  "list_all (\<lambda>r. \<exists>row. r = Scanned row) rs \<Longrightarrow>
   \<exists>orders' g'. getOrdersRows rs orders g = (Inr orders', g') \<and>
     (\<forall>x. \<not> orderHasRows rs x \<longrightarrow> map_of orders' x = map_of orders x)"
proof (induction rs orders g rule: getOrdersRows.induct)
  case (1 orders g)
  then show ?case by simp
next
  case (2 e rest orders g)
  then show ?case by simp
next
  case (3 oid pid qty pname rest orders g)
  let ?po = "\<lparr>OrderID = oid, Product = \<lparr>ID = pid, Name = pname\<rparr>, Quantity = qty\<rparr>"
  let ?orders1 = "assign orders oid (index [] orders oid @ [?po])"
  let ?g1 = "g\<lparr>mainRacks := assign (mainRacks g) pid []\<rparr>"
  from "3.prems" have rest: "list_all (\<lambda>r. \<exists>row. r = Scanned row) rest" by simp
  from "3.IH" [OF refl rest] obtain orders' g' where
    r: "getOrdersRows rest ?orders1 ?g1 = (Inr orders', g')"
    and k: "\<forall>x. \<not> orderHasRows rest x \<longrightarrow> map_of orders' x = map_of ?orders1 x"
    by blast
  have "map_of orders' x = map_of orders x"
    if "\<not> orderHasRows (Scanned (oid, pid, qty, pname) # rest) x" for x
  proof -
    from that have "x \<noteq> oid" and "\<not> orderHasRows rest x"
      by (auto simp: orderHasRows_def)
    then show ?thesis using k by (simp add: map_of_assign)
  qed
  then show ?case using r by (simp add: Let_def)
qed

lemma getProductName_ok:
  "\<exists>p. GetProduct st i = Inr p \<Longrightarrow> \<exists>name cache'. getProductName st i cache = (Inr name, cache')"
  by (auto simp: getProductName_def Let_def split: option.splits)

lemma getOrderProducts_ok:
  "list_all (\<lambda>r. \<exists>p. GetProduct st (ProductID_sqlc r) = Inr p) rows \<Longrightarrow>
   \<exists>ps cache'. getOrderProducts st rows acc cache = (Inr ps, cache') \<and>
     length ps = length acc + length rows"
proof (induction rows arbitrary: acc cache)
  case Nil
  then show ?case by simp
next
  case (Cons r rows)
  from Cons.prems obtain name cache1 where
    n: "getProductName st (ProductID_sqlc r) cache = (Inr name, cache1)"
    using getProductName_ok [of st "ProductID_sqlc r" cache] by auto
  from Cons.prems have rest: "list_all (\<lambda>r. \<exists>p. GetProduct st (ProductID_sqlc r) = Inr p) rows"
    by simp
  let ?acc1 = "acc @ [\<lparr>ID_store = ProductID_sqlc r, Name_store = name,
                        Quantity_store = Quantity_sqlc r, SecondaryRacks_store = []\<rparr>]"
  from Cons.IH [OF rest, of ?acc1 cache1] obtain ps cache' where
    "getOrderProducts st rows ?acc1 cache1 = (Inr ps, cache')"
    "length ps = length ?acc1 + length rows"
    by blast
  then show ?case using n by simp
qed

lemma getOrdersLoop_store_ok:
  "list_all (orderResolvable st) orderIDs \<Longrightarrow>
   \<exists>orders cache'. getOrdersLoop_store st orderIDs acc cache = (Inr orders, cache') \<and>
     (\<forall>x. (x \<in> set orderIDs \<and> GetOrder st x = Inr [] \<longrightarrow> map_of orders x = Some []) \<and>
          (x \<notin> set orderIDs \<longrightarrow> map_of orders x = map_of acc x))"
proof (induction orderIDs arbitrary: acc cache)
  case Nil
  then show ?case by simp
next
  case (Cons i orderIDs)
  from Cons.prems obtain rows where
    g: "GetOrder st i = Inr rows"
    and ps: "list_all (\<lambda>r. \<exists>p. GetProduct st (ProductID_sqlc r) = Inr p) rows"
    by (auto simp: orderResolvable_def)
  from getOrderProducts_ok [OF ps, of "[]" cache] obtain products cache1 where
    p: "getOrderProducts st rows [] cache = (Inr products, cache1)"
    and l: "length products = length rows"
    by auto
  from Cons.prems have rest: "list_all (orderResolvable st) orderIDs" by simp
  from Cons.IH [OF rest, of "assign acc i products" cache1] obtain orders cache' where
    r: "getOrdersLoop_store st orderIDs (assign acc i products) cache1 = (Inr orders, cache')"
    and k: "\<forall>x. (x \<in> set orderIDs \<and> GetOrder st x = Inr [] \<longrightarrow> map_of orders x = Some []) \<and>
          (x \<notin> set orderIDs \<longrightarrow> map_of orders x = map_of (assign acc i products) x)"
    by blast
  have run: "getOrdersLoop_store st (i # orderIDs) acc cache = (Inr orders, cache')"
    using g p r by simp
  have "map_of orders x = Some []" if "x \<in> set (i # orderIDs)" "GetOrder st x = Inr []" for x
  proof (cases "x \<in> set orderIDs")
    case True
    then show ?thesis using k that by blast
  next
    case False
    then have "x = i" using that by simp
    then have "products = []" using that g l by simp
    then show ?thesis using k False \<open>x = i\<close> by (simp add: map_of_assign)
  qed
  moreover have "map_of orders x = map_of acc x" if "x \<notin> set (i # orderIDs)" for x
    using k that by (simp add: map_of_assign)
  ultimately show ?case using run by blast
qed

section \<open>Parsing\<close>

lemma digitVal_range: "isDigit c \<Longrightarrow> 0 \<le> digitVal c \<and> digitVal c \<le> 9"
proof -
  assume "isDigit c"
  then have "(48::nat) \<le> of_char c" "of_char c \<le> (57::nat)"
    by (simp_all add: isDigit_def less_eq_char_def)
  then have "(48::int) \<le> int (of_char c)" "int (of_char c) \<le> 57"
    by simp_all
  then have "(48::int) \<le> of_char c" "(of_char c :: int) \<le> 57"
    by (simp_all only: of_nat_of_char)
  then show ?thesis by (simp add: digitVal_def)
qed

lemma decimalFrom_Nil: "decimalFrom n [] = n"
  by (simp add: decimalFrom_def)

lemma decimalFrom_Cons: "decimalFrom n (c # ds) = decimalFrom (n * 10 + digitVal c) ds"
  by (simp add: decimalFrom_def)

lemma decimalFrom_mono:
  "list_all isDigit ds \<Longrightarrow> 0 \<le> n \<Longrightarrow> n \<le> decimalFrom n ds"
proof (induction ds arbitrary: n)
  case Nil
  then show ?case by (simp add: decimalFrom_Nil)
next
  case (Cons c ds)
  have d: "0 \<le> digitVal c" using Cons.prems digitVal_range by simp
  have "n \<le> n * 10 + digitVal c" using Cons.prems(2) d by simp
  moreover have "n * 10 + digitVal c \<le> decimalFrom (n * 10 + digitVal c) ds"
    using Cons.IH [of "n * 10 + digitVal c"] Cons.prems d by simp
  ultimately show ?case by (simp add: decimalFrom_Cons)
qed

lemma ParseUintLoop_step:
  assumes c: "isDigit c" and n: "0 \<le> n"
  shows "ParseUintLoop (c # cs) n
         = (if n * 10 + digitVal c \<le> maxUint64 then ParseUintLoop cs (n * 10 + digitVal c)
            else (maxUint64, Some ErrRange))"
proof -
  have d: "0 \<le> digitVal c" "digitVal c \<le> 9" using digitVal_range [OF c] by simp_all
  have M: "maxUint64 = 18446744073709551615" by (simp add: maxUint64_def)
  have P: "(2::int) ^ 64 = 18446744073709551616" by simp
  let ?n1 = "n * 10 + digitVal c"
  show ?thesis
  proof (cases "n \<ge> 1844674407370955162")
    case True
    then have "?n1 > 18446744073709551615" using d by linarith
    then show ?thesis using True c by (simp add: M)
  next
    case False
    then have n10: "n * 10 < 18446744073709551616" by linarith
    have m10: "(n * 10) mod 18446744073709551616 = n * 10"
      using n n10 by (intro mod_pos_pos_trivial) simp_all
    show ?thesis
    proof (cases "?n1 \<le> 18446744073709551615")
      case True
      have "?n1 mod 18446744073709551616 = ?n1"
        using n d True by (intro mod_pos_pos_trivial) linarith+
      then show ?thesis
        using False c m10 True d by (simp add: Let_def M P)
    next
      case over: False
      have "?n1 mod 18446744073709551616 = (?n1 - 18446744073709551616) mod 18446744073709551616"
        by (simp add: mod_diff_right_eq [symmetric])
      also have "\<dots> = ?n1 - 18446744073709551616"
        using over n10 d by (intro mod_pos_pos_trivial) linarith+
      finally have "?n1 mod 18446744073709551616 < n * 10" using d by linarith
      then show ?thesis
        using False c m10 over by (simp add: Let_def M P)
    qed
  qed
qed

lemma ParseUintLoop_digits:
  "list_all isDigit ds \<Longrightarrow> 0 \<le> n \<Longrightarrow> n \<le> maxUint64 \<Longrightarrow>
   ParseUintLoop (ds @ rest) n
   = (if decimalFrom n ds \<le> maxUint64 then ParseUintLoop rest (decimalFrom n ds)
      else (maxUint64, Some ErrRange))"
proof (induction ds arbitrary: n)
  case Nil
  then show ?case by (simp add: decimalFrom_Nil)
next
  case (Cons c ds)
  have c: "isDigit c" and ds: "list_all isDigit ds" using Cons.prems by simp_all
  have d: "0 \<le> digitVal c" using digitVal_range [OF c] by simp
  let ?n1 = "n * 10 + digitVal c"
  have n1: "0 \<le> ?n1" using Cons.prems(2) d by simp
  have step: "ParseUintLoop ((c # ds) @ rest) n
         = (if ?n1 \<le> maxUint64 then ParseUintLoop (ds @ rest) ?n1
            else (maxUint64, Some ErrRange))"
    using ParseUintLoop_step [OF c Cons.prems(2), of "ds @ rest"] by simp
  show ?case
  proof (cases "?n1 \<le> maxUint64")
    case True
    then show ?thesis
      by (simp only: step decimalFrom_Cons Cons.IH [OF ds n1 True] if_True)
  next
    case False
    then have "\<not> decimalFrom ?n1 ds \<le> maxUint64"
      using decimalFrom_mono [OF ds n1] by linarith
    then show ?thesis using False
      by (simp only: step decimalFrom_Cons if_False)
  qed
qed

lemma not_all_digits_split:
  "\<not> list_all isDigit u \<Longrightarrow>
   \<exists>c rest. u = takeWhile isDigit u @ c # rest \<and> \<not> isDigit c"
proof -
  assume "\<not> list_all isDigit u"
  then have ne: "dropWhile isDigit u \<noteq> []"
    by (simp add: list_all_iff)
  then obtain c rest where dr: "dropWhile isDigit u = c # rest"
    by (cases "dropWhile isDigit u") auto
  then have "\<not> isDigit c" using hd_dropWhile [OF ne] by simp
  moreover have "u = takeWhile isDigit u @ c # rest"
    using takeWhile_dropWhile_id [of isDigit u] dr by simp
  ultimately show ?thesis by blast
qed

lemma ParseUint_invalid:
  "\<not> (u \<noteq> [] \<and> list_all isDigit u) \<Longrightarrow>
   ParseUint u
   = (if decimalFrom 0 (takeWhile isDigit u) \<le> maxUint64 then (0, Some ErrSyntax)
      else (maxUint64, Some ErrRange))"
proof (cases "u = []")
  case True
  then show ?thesis by (simp add: ParseUint_def decimalFrom_Nil maxUint64_def)
next
  case False
  assume "\<not> (u \<noteq> [] \<and> list_all isDigit u)"
  with False have "\<not> list_all isDigit u" by simp
  from not_all_digits_split [OF this] obtain c rest where
    u: "u = takeWhile isDigit u @ c # rest" and c: "\<not> isDigit c"
    by blast
  have all: "list_all isDigit (takeWhile isDigit u)"
    by (simp add: list_all_iff) (meson set_takeWhileD)
  have "ParseUintLoop (takeWhile isDigit u @ c # rest) 0
        = (if decimalFrom 0 (takeWhile isDigit u) \<le> maxUint64
           then ParseUintLoop (c # rest) (decimalFrom 0 (takeWhile isDigit u))
           else (maxUint64, Some ErrRange))"
    by (rule ParseUintLoop_digits [OF all]) (simp_all add: maxUint64_def)
  moreover have "ParseUintLoop (c # rest) m = (0, Some ErrSyntax)" for m
    using c by simp
  moreover have "ParseUint u = ParseUintLoop (takeWhile isDigit u @ c # rest) 0"
    using False u by (simp add: ParseUint_def)
  ultimately show ?thesis by simp
qed

lemma ParseInt_invalid:
  assumes "\<not> validInteger t"
  shows "fst (ParseInt t)
         = (if decimalFrom 0 (takeWhile isDigit (unsigned t)) \<le> maxUint64 then 0
            else if hd t = CHR ''-'' then - (2 ^ 63) else 2 ^ 63 - 1)"
proof (cases "t = []")
  case True
  then show ?thesis
    by (simp add: ParseInt_def unsigned_def decimalFrom_Nil maxUint64_def)
next
  case False
  have u: "unsigned t = (if hd t = CHR ''+'' \<or> hd t = CHR ''-'' then tl t else t)"
    using False by (simp add: unsigned_def)
  have inv: "\<not> (unsigned t \<noteq> [] \<and> list_all isDigit (unsigned t))"
    using assms by (simp add: validInteger_def)
  note pu = ParseUint_invalid [OF inv]
  show ?thesis
  proof (cases "decimalFrom 0 (takeWhile isDigit (unsigned t)) \<le> maxUint64")
    case True
    then have "ParseUint (unsigned t) = (0, Some ErrSyntax)" using pu by simp
    then show ?thesis using False True u
      by (simp add: ParseInt_def Let_def)
  next
    case over: False
    then have r: "ParseUint (unsigned t) = (maxUint64, Some ErrRange)" using pu by simp
    have M: "maxUint64 = 18446744073709551615" by (simp add: maxUint64_def)
    show ?thesis
    proof (cases "hd t = CHR ''-''")
      case True
      then have "unsigned t = tl t" using u by simp
      then show ?thesis using False over r True
        by (simp add: ParseInt_def Let_def M)
    next
      case notneg: False
      have "ParseUint (if hd t = CHR ''+'' \<or> hd t = CHR ''-'' then tl t else t)
            = (maxUint64, Some ErrRange)"
        using r u by simp
      then show ?thesis using False over notneg
        by (simp add: ParseInt_def Let_def M)
    qed
  qed
qed

lemma splitFrom_length: "length (splitFrom cur s) = Suc (length (filter (\<lambda>c. c = CHR '','') s))"
  by (induction s arbitrary: cur) simp_all

section \<open>Failing lookups of the store\<close>

lemma GetMainRack_spec_fails:
  "\<not> hasMainRack_store racksTable productID \<Longrightarrow>
   GetMainRack_spec racksTable productID = Inl (DBErr ''RackNotFoundError'')"
  by (simp add: GetMainRack_spec_def hasMainRack_store_def list_ex_iff find_None_iff [THEN iffD2])

lemma groupProducts_store_fails:
  "p \<in> set ps \<Longrightarrow> GetMainRack st (ID_store p) = Inl e \<Longrightarrow>
   \<exists>err. groupProducts_store st orderID ps racks = Inl err"
proof (induction ps arbitrary: racks)
  case Nil
  then show ?case by simp
next
  case (Cons q ps)
  show ?case
  proof (cases "GetMainRack st (ID_store q)")
    case (Inl e')
    then show ?thesis by simp
  next
    case (Inr rack)
    then have "q \<noteq> p" using Cons.prems(2) by auto
    then have p: "p \<in> set ps" using Cons.prems(1) by simp
    show ?thesis
    proof (cases "GetSecondaryRacks st (ID_store q)")
      case (Inl e')
      then show ?thesis using Inr by simp
    next
      case sec: (Inr rs)
      show ?thesis using Inr sec Cons.IH [OF p Cons.prems(2)] by simp
    qed
  qed
qed

lemma groupOrders_store_fails:
  "(orderID, ps) \<in> set orders \<Longrightarrow> p \<in> set ps \<Longrightarrow> GetMainRack st (ID_store p) = Inl e \<Longrightarrow>
   \<exists>err. groupOrders_store st orders racks = Inl err"
proof (induction orders arbitrary: racks)
  case Nil
  then show ?case by simp
next
  case (Cons a orders)
  obtain o' ps' where a: "a = (o', ps')" by (cases a)
  show ?case
  proof (cases "groupProducts_store st o' ps' racks")
    case (Inl err)
    then show ?thesis using a by simp
  next
    case (Inr racks')
    have "(orderID, ps) \<noteq> a"
    proof
      assume "(orderID, ps) = a"
      then have "\<exists>err. groupProducts_store st o' ps' racks = Inl err"
        using a groupProducts_store_fails [OF Cons.prems(2) Cons.prems(3)] by simp
      then show False using Inr by simp
    qed
    then have "(orderID, ps) \<in> set orders" using Cons.prems(1) by simp
    then show ?thesis
      using a Inr Cons.IH [OF _ Cons.prems(2) Cons.prems(3)] by simp
  qed
qed

lemma getOrderProducts_ids:
  "getOrderProducts st rows acc cache = (Inr ps, cache') \<Longrightarrow>
   map ID_store ps = map ID_store acc @ map ProductID_sqlc rows"
proof (induction rows arbitrary: acc cache)
  case Nil
  then show ?case by simp
next
  case (Cons r rows)
  show ?case
  proof (cases "getProductName st (ProductID_sqlc r) cache")
    case (Pair res cache1)
    show ?thesis
    proof (cases res)
      case (Inl e)
      then show ?thesis using Cons.prems Pair by simp
    next
      case (Inr name)
      then show ?thesis using Cons.prems Pair Cons.IH by (auto simp: Let_def)
    qed
  qed
qed

lemma getOrdersLoop_store_entries:
  "getOrdersLoop_store st orderIDs acc cache = (Inr orders, cache') \<Longrightarrow>
   (\<forall>x. x \<notin> set orderIDs \<longrightarrow> map_of orders x = map_of acc x) \<and>
   (\<forall>x rows. x \<in> set orderIDs \<and> GetOrder st x = Inr rows \<longrightarrow>
      (\<exists>ps. map_of orders x = Some ps \<and> map ID_store ps = map ProductID_sqlc rows))"
proof (induction orderIDs arbitrary: acc cache)
  case Nil
  then show ?case by simp
next
  case (Cons i orderIDs)
  from Cons.prems obtain rows_i where g: "GetOrder st i = Inr rows_i"
    by (cases "GetOrder st i") auto
  from Cons.prems g obtain products cache1 where
    p: "getOrderProducts st rows_i [] cache = (Inr products, cache1)"
    by (cases "getOrderProducts st rows_i [] cache"; cases "fst (getOrderProducts st rows_i [] cache)")
       auto
  have r: "getOrdersLoop_store st orderIDs (assign acc i products) cache1 = (Inr orders, cache')"
    using Cons.prems g p by simp
  note ih = Cons.IH [OF r]
  have ids: "map ID_store products = map ProductID_sqlc rows_i"
    using getOrderProducts_ids [OF p] by simp
  have "map_of orders x = map_of acc x" if "x \<notin> set (i # orderIDs)" for x
    using ih that by (simp add: map_of_assign)
  moreover have "\<exists>ps. map_of orders x = Some ps \<and> map ID_store ps = map ProductID_sqlc rows"
    if "x \<in> set (i # orderIDs)" "GetOrder st x = Inr rows" for x rows
  proof (cases "x \<in> set orderIDs")
    case True
    then show ?thesis using ih that by blast
  next
    case False
    then have "x = i" using that by simp
    then have "rows = rows_i" using that g by simp
    moreover have "map_of orders x = Some products"
      using ih False \<open>x = i\<close> by (simp add: map_of_assign)
    ultimately show ?thesis using ids by simp
  qed
  ultimately show ?case by blast
qed

lemma groupProducts_store_Inr:
  "groupProducts_store st orderID ps racks = Inr racks' \<Longrightarrow> \<forall>p \<in> set ps. resolvable st p"
proof (induction ps arbitrary: racks)
  case Nil
  then show ?case by simp
next
  case (Cons q ps)
  from Cons.prems obtain rack where m: "GetMainRack st (ID_store q) = Inr rack"
    by (cases "GetMainRack st (ID_store q)") auto
  from Cons.prems m obtain rs where s: "GetSecondaryRacks st (ID_store q) = Inr rs"
    by (cases "GetSecondaryRacks st (ID_store q)") auto
  have "resolvable st q" using m s by (simp add: resolvable_def)
  moreover have "\<forall>p \<in> set ps. resolvable st p"
    using Cons.prems m s Cons.IH by auto
  ultimately show ?case by simp
qed

lemma groupOrders_store_Inr:
  "groupOrders_store st orders racks = Inr racks' \<Longrightarrow>
   \<forall>x \<in> set (lineItems_store orders). resolvable st (snd x)"
proof (induction orders arbitrary: racks)
  case Nil
  then show ?case by (simp add: lineItems_store_Nil)
next
  case (Cons a orders)
  obtain orderID ps where a: "a = (orderID, ps)" by (cases a)
  from Cons.prems a obtain racks1 where
    g: "groupProducts_store st orderID ps racks = Inr racks1"
    by (cases "groupProducts_store st orderID ps racks") auto
  have rest: "groupOrders_store st orders racks1 = Inr racks'"
    using Cons.prems a g by simp
  show ?case
    using groupProducts_store_Inr [OF g] Cons.IH [OF rest] a
    by (auto simp: lineItems_store_Cons)
qed

section \<open>The claims\<close>

text \<open>
  \<^bold>\<open>C1.\<close> Grouping places every line item in exactly one bucket, the one keyed by the name
  of its main rack. In \<^verbatim>\<open>cmd/main.go\<close>, for every map \<open>mainRacks\<close> and every order map,
  in whatever order it is ranged over: the keys of the result are distinct and are the
  names \<open>mainRacks\<close> records for the products of the line items, the bucket of a name
  \<open>k\<close> is exactly the list of the line items whose main rack is named \<open>k\<close>, and the
  buckets together hold the line items with their multiplicities. In the store
  version the same holds once the store answers the rack lookups of every product in the
  orders (each line item has a known main rack); the entry of a line item is the order
  identifier with the product, its secondary rack names filled in. The store version
  produces an aggregation only then: whenever it returns one, the store has answered the
  rack lookups of every product.
\<close>

theorem C1_every_item_in_the_bucket_of_its_main_rack:
  "(\<exists>racks. groupOrdersByRack g orders = Inr racks \<and> distinct (map fst racks) \<and>
      set (map fst racks)
        = (\<lambda>p. index [] (mainRacks g) (ID (Product p))) ` set (concat (map snd orders)) \<and>
      (\<forall>k. index [] racks k
            = filter (\<lambda>p. index [] (mainRacks g) (ID (Product p)) = k) (concat (map snd orders))) \<and>
      mset (concat (map snd racks)) = mset (concat (map snd orders))) \<and>
   ((\<forall>x \<in> set (lineItems_store orders'). resolvable st (snd x)) \<longrightarrow>
    (\<exists>racks. groupOrdersByRack_store st orders' = Inr racks \<and> distinct (map fst racks) \<and>
      set (map fst racks)
        = (\<lambda>x. mainRackName_store st (snd x)) ` set (lineItems_store orders') \<and>
      (\<forall>k. index [] racks k
            = map (entry_store st)
                (filter (\<lambda>x. mainRackName_store st (snd x) = k) (lineItems_store orders'))) \<and>
      mset (concat (map snd racks)) = mset (map (entry_store st) (lineItems_store orders')))) \<and>
   (\<forall>racks. groupOrdersByRack_store st orders' = Inr racks \<longrightarrow>
      (\<forall>x \<in> set (lineItems_store orders'). resolvable st (snd x)))"
proof (intro conjI impI)
  let ?racks = "foldl (appendPart g) [] (concat (map snd orders))"
  have "groupOrdersByRack g orders = Inr ?racks" by (rule groupOrdersByRack_flat)
  moreover have "distinct (map fst ?racks)"
    unfolding appendPart_bucket by (rule bucket_distinct) simp
  moreover have "\<forall>k. index [] ?racks k
      = filter (\<lambda>p. index [] (mainRacks g) (ID (Product p)) = k) (concat (map snd orders))"
    unfolding appendPart_bucket by (simp add: bucket_index index_empty)
  moreover have "mset (concat (map snd ?racks)) = mset (concat (map snd orders))"
    unfolding appendPart_bucket by (simp add: bucket_mset)
  moreover have "set (map fst ?racks)
        = (\<lambda>p. index [] (mainRacks g) (ID (Product p))) ` set (concat (map snd orders))"
    unfolding appendPart_bucket by (simp only: bucket_keys) simp
  ultimately show "\<exists>racks. groupOrdersByRack g orders = Inr racks \<and> distinct (map fst racks) \<and>
      set (map fst racks)
        = (\<lambda>p. index [] (mainRacks g) (ID (Product p))) ` set (concat (map snd orders)) \<and>
      (\<forall>k. index [] racks k
            = filter (\<lambda>p. index [] (mainRacks g) (ID (Product p)) = k) (concat (map snd orders))) \<and>
      mset (concat (map snd racks)) = mset (concat (map snd orders))"
    by blast
next
  assume ok: "\<forall>x \<in> set (lineItems_store orders'). resolvable st (snd x)"
  let ?racks = "foldl (bucketStep (\<lambda>x. mainRackName_store st (snd x)) (entry_store st)) []
                  (lineItems_store orders')"
  have "groupOrdersByRack_store st orders' = Inr ?racks"
    by (simp add: groupOrdersByRack_store_def groupOrders_store_ok [OF ok])
  moreover have "distinct (map fst ?racks)"
    by (rule bucket_distinct) simp
  moreover have "\<forall>k. index [] ?racks k
      = map (entry_store st)
          (filter (\<lambda>x. mainRackName_store st (snd x) = k) (lineItems_store orders'))"
    by (simp add: bucket_index index_empty)
  moreover have "mset (concat (map snd ?racks)) = mset (map (entry_store st) (lineItems_store orders'))"
    by (simp add: bucket_mset)
  moreover have "set (map fst ?racks)
        = (\<lambda>x. mainRackName_store st (snd x)) ` set (lineItems_store orders')"
    by (simp only: bucket_keys) simp
  ultimately show "\<exists>racks. groupOrdersByRack_store st orders' = Inr racks \<and> distinct (map fst racks) \<and>
      set (map fst racks)
        = (\<lambda>x. mainRackName_store st (snd x)) ` set (lineItems_store orders') \<and>
      (\<forall>k. index [] racks k
            = map (entry_store st)
                (filter (\<lambda>x. mainRackName_store st (snd x) = k) (lineItems_store orders'))) \<and>
      mset (concat (map snd racks)) = mset (map (entry_store st) (lineItems_store orders'))"
    by blast
next
  show "\<forall>racks. groupOrdersByRack_store st orders' = Inr racks \<longrightarrow>
      (\<forall>x \<in> set (lineItems_store orders'). resolvable st (snd x))"
    using groupOrders_store_Inr [of st orders' "[]"]
    by (simp add: groupOrdersByRack_store_def)
qed

theorem C1_witness:
  "resolvable exStore (snd (lineItems_store exOrders_store ! 0)) \<and>
   resolvable exStore (snd (lineItems_store exOrders_store ! 1)) \<and>
   length (lineItems_store exOrders_store) = 2 \<and>
   (\<exists>racks. groupOrdersByRack_store exStore exOrders_store = Inr racks \<and>
      index [] racks ''B''
        = [\<lparr>OrderID_store = 2,
            Product_store = \<lparr>ID_store = 20, Name_store = ''nut'', Quantity_store = 1,
                              SecondaryRacks_store = [''C'']\<rparr>\<rparr>])"
proof -
  have h: "\<forall>x \<in> set (lineItems_store exOrders_store). resolvable exStore (snd x)"
    by (simp add: lineItems_store_def exOrders_store_def resolvable_def exStore_def)
  from C1_every_item_in_the_bucket_of_its_main_rack
    [of _ _ exOrders_store exStore, THEN conjunct2, THEN conjunct1] h
  obtain racks where r: "groupOrdersByRack_store exStore exOrders_store = Inr racks"
    and b: "\<forall>k. index [] racks k
            = map (entry_store exStore)
                (filter (\<lambda>x. mainRackName_store exStore (snd x) = k) (lineItems_store exOrders_store))"
    by blast
  have "index [] racks ''B''
        = [\<lparr>OrderID_store = 2,
            Product_store = \<lparr>ID_store = 20, Name_store = ''nut'', Quantity_store = 1,
                              SecondaryRacks_store = [''C'']\<rparr>\<rparr>]"
    by (simp add: b lineItems_store_def exOrders_store_def mainRackName_store_def entry_store_def exStore_def)
  moreover have "length (lineItems_store exOrders_store) = 2"
    by (simp add: lineItems_store_def exOrders_store_def)
  moreover have "resolvable exStore (snd (lineItems_store exOrders_store ! 0))"
    "resolvable exStore (snd (lineItems_store exOrders_store ! 1))"
    by (simp_all add: lineItems_store_def exOrders_store_def resolvable_def exStore_def)
  ultimately show ?thesis using r by blast
qed

text \<open>
  \<^bold>\<open>C2\<close>, for the store version. When a product of a requested order has no
  rack marked main in the table of racks, \<open>GetMainRack\<close> fails for it, and a run of the
  store version ends with a fatal error having written nothing to standard output: no
  rack section is rendered. This holds for every order in which the maps are ranged over
  and whatever the other lookups return.
\<close>

theorem C2_fail_fast_without_main_rack:
  assumes "GetMainRack st = GetMainRack_spec racksTable"
    and "visitsAll (rangeOrders_store rg)"
    and "1 < length args"
    and "orderID \<in> set (parseOrderIDs (args ! 1))"
    and "GetOrder st orderID = Inr rows"
    and "sqlcOrder \<in> set rows"
    and "\<not> hasMainRack_store racksTable (ProductID_sqlc sqlcOrder)"
  shows "(\<exists>e. GetMainRack st (ProductID_sqlc sqlcOrder) = Inl e) \<and>
         (\<exists>err. solve_store st rg productsName args = ([], Fatal err))"
proof -
  have fail: "GetMainRack st (ProductID_sqlc sqlcOrder) = Inl (DBErr ''RackNotFoundError'')"
    using assms(1) GetMainRack_spec_fails [OF assms(7)] by simp
  obtain res cache where go: "getOrders_store st (parseOrderIDs (args ! 1)) productsName = (res, cache)"
    by (cases "getOrders_store st (parseOrderIDs (args ! 1)) productsName")
  have "\<exists>err. solve_store st rg productsName args = ([], Fatal err)"
  proof (cases res)
    case (Inl e)
    then show ?thesis using go assms(3) by (simp add: solve_store_def Let_def)
  next
    case (Inr orders)
    then have "getOrdersLoop_store st (parseOrderIDs (args ! 1)) [] productsName = (Inr orders, cache)"
      using go by (simp add: getOrders_store_def)
    from getOrdersLoop_store_entries [OF this] assms(4) assms(5) obtain ps where
      m: "map_of orders orderID = Some ps" and ids: "map ID_store ps = map ProductID_sqlc rows"
      by blast
    from assms(6) have "ProductID_sqlc sqlcOrder \<in> set (map ID_store ps)"
      using ids by simp
    then obtain p where p: "p \<in> set ps" "ID_store p = ProductID_sqlc sqlcOrder"
      by auto
    have "(orderID, ps) \<in> set orders" using m by (rule map_of_SomeD)
    moreover have "set (rangeOrders_store rg orders) = set orders"
      using assms(2) by (metis visitsAll_def set_mset_mset)
    ultimately have "(orderID, ps) \<in> set (rangeOrders_store rg orders)" by simp
    from groupOrders_store_fails [OF this p(1), of st _ "[]"] fail p(2) obtain err where
      "groupOrdersByRack_store st (rangeOrders_store rg orders) = Inl err"
      by (auto simp: groupOrdersByRack_store_def)
    then show ?thesis using go Inr assms(3) by (simp add: solve_store_def Let_def)
  qed
  then show ?thesis using fail by blast
qed

theorem C2_witness:
  "GetMainRack exStoreNoMain = GetMainRack_spec exRacksTable \<and>
   visitsAll (rangeOrders_store rangeRacksReversed) \<and>
   parseOrderIDs ''1,2'' = [1, 2] \<and>
   GetOrder exStoreNoMain 2 = Inr [\<lparr>ProductID_sqlc = 20, Quantity_sqlc = 1\<rparr>] \<and>
   \<not> hasMainRack_store exRacksTable 20 \<and>
   (\<exists>e. GetMainRack exStoreNoMain 20 = Inl e) \<and>
   (\<exists>err. solve_store exStoreNoMain rangeRacksReversed [] [''app'', ''1,2''] = ([], Fatal err))"
proof -
  have a1: "GetMainRack exStoreNoMain = GetMainRack_spec exRacksTable"
    by (simp add: exStoreNoMain_def)
  have a2: "visitsAll (rangeOrders_store rangeRacksReversed)"
    by (simp add: visitsAll_def rangeRacksReversed_def)
  have a3: "1 < length [''app'', ''1,2'']" by simp
  have ids: "parseOrderIDs ''1,2'' = [1, 2]" by code_simp
  then have a4: "2 \<in> set (parseOrderIDs ([''app'', ''1,2''] ! 1))" by simp
  have a5: "GetOrder exStoreNoMain 2 = Inr [\<lparr>ProductID_sqlc = 20, Quantity_sqlc = 1\<rparr>]"
    by (simp add: exStoreNoMain_def exStore_def)
  have a6: "\<lparr>ProductID_sqlc = 20, Quantity_sqlc = 1\<rparr> \<in> set [\<lparr>ProductID_sqlc = 20, Quantity_sqlc = 1\<rparr>]"
    by simp
  have a7: "\<not> hasMainRack_store exRacksTable (ProductID_sqlc \<lparr>ProductID_sqlc = 20, Quantity_sqlc = 1\<rparr>)"
    by (simp add: hasMainRack_store_def exRacksTable_def)
  from C2_fail_fast_without_main_rack [OF a1 a2 a3 a4 a5 a6 a7, of "[]"]
  show ?thesis using a1 a2 ids a5 a7 by simp
qed

text \<open>Against \<^bold>\<open>C2\<close> read for every version: \<^verbatim>\<open>cmd/main.go\<close> has no lookup
  that can fail for want of a main rack: product 20 of
  order 1 has none, and the report is printed in full, with product 20 under a rack
  header that has an empty name.\<close>

theorem C2_counterexample:
  "QueryRacks exDbNoMain [10, 20] = Rows [Scanned (10, ''A'', True), Scanned (20, ''C'', False)] None \<and>
   \<not> hasMainRack [Scanned (10, ''A'', True), Scanned (20, ''C'', False)] 20 \<and>
   solve exDbNoMain rangeAsBuilt [''app'', ''1'']
   = (banner @ NL @
      rackHeader @ NL @
        ''nut (id=20)'' @ NL @ orderWord @ ''1, 1'' @ piecesWord @ NL @
        extraRackWord @ ''C'' @ NL @ NL @
      rackHeader @ ''A'' @ NL @
        ''bolt (id=10)'' @ NL @ orderWord @ ''1, 3'' @ piecesWord @ NL @ NL,
      Exit0)"
proof -
  have "\<not> hasMainRack [Scanned (10, ''A'', True), Scanned (20, ''C'', False)] 20"
    by (simp add: hasMainRack_def)
  moreover have "solve exDbNoMain rangeAsBuilt [''app'', ''1'']
   = (banner @ NL @
      rackHeader @ NL @
        ''nut (id=20)'' @ NL @ orderWord @ ''1, 1'' @ piecesWord @ NL @
        extraRackWord @ ''C'' @ NL @ NL @
      rackHeader @ ''A'' @ NL @
        ''bolt (id=10)'' @ NL @ orderWord @ ''1, 3'' @ piecesWord @ NL @ NL,
      Exit0)"
    by code_simp
  ultimately show ?thesis by (simp add: exDbNoMain_def answer_def)
qed

text \<open>
  \<^bold>\<open>C3.\<close> Two runs on the same database answers and the same argument need not write the
  same bytes. \<open>groupOrdersByRack\<close> ranges over the Go map of the orders, and Go does not
  fix the order of \<^verbatim>\<open>range\<close> over a map. With orders 1 and 2 both holding product 10 of
  rack A, the run that visits order 1 first and the run that visits order 2 first list
  the two entries of rack A in opposite orders. The store version moreover ranges over
  the map of the racks when it prints: on the two-rack example its two runs print the
  rack sections in opposite orders.
\<close>

theorem C3_output_depends_on_range_order:
  "visitsAll (rangeOrders rangeAsBuilt) \<and> visitsAll (rangeOrders rangeReversed) \<and>
   visitsAll (rangeMainRacks rangeAsBuilt) \<and> visitsAll (rangeMainRacks rangeReversed) \<and>
   solve exDbSameRack rangeAsBuilt [''app'', ''1,2'']
   = (banner @ NL @ rackHeader @ ''A'' @ NL @
        ''bolt (id=10)'' @ NL @ orderWord @ ''1, 3'' @ piecesWord @ NL @ NL @
        ''bolt (id=10)'' @ NL @ orderWord @ ''2, 1'' @ piecesWord @ NL @ NL,
      Exit0) \<and>
   solve exDbSameRack rangeReversed [''app'', ''1,2'']
   = (banner @ NL @ rackHeader @ ''A'' @ NL @
        ''bolt (id=10)'' @ NL @ orderWord @ ''2, 1'' @ piecesWord @ NL @ NL @
        ''bolt (id=10)'' @ NL @ orderWord @ ''1, 3'' @ piecesWord @ NL @ NL,
      Exit0) \<and>
   solve exDbSameRack rangeAsBuilt [''app'', ''1,2'']
     \<noteq> solve exDbSameRack rangeReversed [''app'', ''1,2''] \<and>
   solve_store exStore rangeAsBuilt_store [] [''app'', ''1,2'']
     \<noteq> solve_store exStore rangeRacksReversed [] [''app'', ''1,2'']"
proof -
  have v: "visitsAll (rangeOrders rangeAsBuilt)" "visitsAll (rangeOrders rangeReversed)"
    "visitsAll (rangeMainRacks rangeAsBuilt)" "visitsAll (rangeMainRacks rangeReversed)"
    by (simp_all add: visitsAll_def rangeAsBuilt_def rangeReversed_def)
  have r1: "solve exDbSameRack rangeAsBuilt [''app'', ''1,2'']
   = (banner @ NL @ rackHeader @ ''A'' @ NL @
        ''bolt (id=10)'' @ NL @ orderWord @ ''1, 3'' @ piecesWord @ NL @ NL @
        ''bolt (id=10)'' @ NL @ orderWord @ ''2, 1'' @ piecesWord @ NL @ NL,
      Exit0)"
    by code_simp
  have r2: "solve exDbSameRack rangeReversed [''app'', ''1,2'']
   = (banner @ NL @ rackHeader @ ''A'' @ NL @
        ''bolt (id=10)'' @ NL @ orderWord @ ''2, 1'' @ piecesWord @ NL @ NL @
        ''bolt (id=10)'' @ NL @ orderWord @ ''1, 3'' @ piecesWord @ NL @ NL,
      Exit0)"
    by code_simp
  have d1: "solve exDbSameRack rangeAsBuilt [''app'', ''1,2'']
     \<noteq> solve exDbSameRack rangeReversed [''app'', ''1,2'']"
    by code_simp
  have d2: "solve_store exStore rangeAsBuilt_store [] [''app'', ''1,2'']
     \<noteq> solve_store exStore rangeRacksReversed [] [''app'', ''1,2'']"
    by code_simp
  show ?thesis using v r1 r2 d1 d2 by simp
qed

text \<open>
  \<^bold>\<open>C4\<close>, for \<^verbatim>\<open>cmd/main.go\<close>, which sorts the rack names. The report
  of \<open>printRacksAndOrders\<close> is the banner followed by one section per rack name; the
  section of the \<open>i\<close>-th name of \<open>getSortedRacksNames\<close> starts with the header of that
  name; these names are the keys of the map in ascending byte order, and they are the same
  for every order in which \<^verbatim>\<open>range\<close> yields the entries of the map.
\<close>

theorem C4_headers_ascending:
  "(\<exists>sections.
      fst (printRacksAndOrders g racks) = banner @ NL @ concat sections \<and>
      length sections = length (getSortedRacksNames racks) \<and>
      (\<forall>i < length sections.
         \<exists>body. sections ! i = rackHeader @ getSortedRacksNames racks ! i @ NL @ body)) \<and>
   sorted (getSortedRacksNames racks) \<and>
   set (getSortedRacksNames racks) = fst ` set racks \<and>
   (mset racks' = mset racks \<longrightarrow> getSortedRacksNames racks' = getSortedRacksNames racks)"
proof -
  let ?sections = "map (\<lambda>n. fst (printRack g racks n)) (getSortedRacksNames racks)"
  have "fst (printRacksAndOrders g racks) = banner @ NL @ concat ?sections"
    by (simp add: printRacksAndOrders_render)
  moreover have "length ?sections = length (getSortedRacksNames racks)" by simp
  moreover have "\<forall>i < length ?sections.
         \<exists>body. ?sections ! i = rackHeader @ getSortedRacksNames racks ! i @ NL @ body"
    by (simp add: printRack_render)
  ultimately have "\<exists>sections.
      fst (printRacksAndOrders g racks) = banner @ NL @ concat sections \<and>
      length sections = length (getSortedRacksNames racks) \<and>
      (\<forall>i < length sections.
         \<exists>body. sections ! i = rackHeader @ getSortedRacksNames racks ! i @ NL @ body)"
    by blast
  moreover have "sorted (getSortedRacksNames racks)"
    by (simp add: getSortedRacksNames_def)
  moreover have "set (getSortedRacksNames racks) = fst ` set racks"
    by (simp add: getSortedRacksNames_def)
  ultimately show ?thesis using getSortedRacksNames_range by blast
qed

theorem C4_headers_ascending_witness:
  "mset [(''A'', [exPart1]), (''B'', [exPart2])] = mset [(''B'', [exPart2]), (''A'', [exPart1])] \<and>
   getSortedRacksNames [(''B'', [exPart2]), (''A'', [exPart1])] = [''A'', ''B''] \<and>
   getSortedRacksNames [(''A'', [exPart1]), (''B'', [exPart2])]
     = getSortedRacksNames [(''B'', [exPart2]), (''A'', [exPart1])] \<and>
   (\<exists>body0 body1.
      fst (printRacksAndOrders \<lparr>mainRacks = [], secondaryRacks = []\<rparr> [(''B'', [exPart2]), (''A'', [exPart1])])
      = banner @ NL @ (rackHeader @ ''A'' @ NL @ body0) @ (rackHeader @ ''B'' @ NL @ body1))"
proof -
  let ?R = "[(''B'', [exPart2]), (''A'', [exPart1])]"
  let ?R' = "[(''A'', [exPart1]), (''B'', [exPart2])]"
  have names: "getSortedRacksNames ?R = [''A'', ''B'']"
    by (simp add: getSortedRacksNames_def)
  have perm: "mset ?R' = mset ?R" by simp
  from C4_headers_ascending [of "\<lparr>mainRacks = [], secondaryRacks = []\<rparr>" ?R ?R'] obtain sections where
    out: "fst (printRacksAndOrders \<lparr>mainRacks = [], secondaryRacks = []\<rparr> ?R) = banner @ NL @ concat sections"
    and len: "length sections = length (getSortedRacksNames ?R)"
    and hd: "\<forall>i < length sections.
         \<exists>body. sections ! i = rackHeader @ getSortedRacksNames ?R ! i @ NL @ body"
    and same: "mset ?R' = mset ?R \<longrightarrow> getSortedRacksNames ?R' = getSortedRacksNames ?R"
    by blast
  from len names have l2: "length sections = 2" by simp
  then obtain s0 s1 where s: "sections = [s0, s1]"
    by (cases sections; cases "tl sections") auto
  from l2 have "0 < length sections" by simp
  with hd have "\<exists>body. sections ! 0 = rackHeader @ getSortedRacksNames ?R ! 0 @ NL @ body"
    by blast
  then obtain body0 where b0: "s0 = rackHeader @ ''A'' @ NL @ body0"
    using s names by auto
  from l2 have "1 < length sections" by simp
  with hd have "\<exists>body. sections ! 1 = rackHeader @ getSortedRacksNames ?R ! 1 @ NL @ body"
    by blast
  then obtain body1 where b1: "s1 = rackHeader @ ''B'' @ NL @ body1"
    using s names by auto
  have "fst (printRacksAndOrders \<lparr>mainRacks = [], secondaryRacks = []\<rparr> ?R)
      = banner @ NL @ (rackHeader @ ''A'' @ NL @ body0) @ (rackHeader @ ''B'' @ NL @ body1)"
    using out s b0 b1 by simp
  then show ?thesis using names perm same by blast
qed

text \<open>Against \<^bold>\<open>C4\<close> read for every version: in the store version the racks are
  printed in the order \<^verbatim>\<open>range\<close> yields them: on
  the example, with the map ranged over in reverse, rack B comes before rack A.\<close>

theorem C4_counterexample:
  "solve_store exStore rangeRacksReversed [] [''app'', ''1,2'']
   = (banner @ NL @
      rackHeader @ ''B'' @ NL @
        ''nut (id=20)'' @ NL @ orderWord @ ''2, 1'' @ piecesWord @ NL @
        extraRackWord @ ''C'' @ NL @ NL @
      rackHeader @ ''A'' @ NL @
        ''bolt (id=10)'' @ NL @ orderWord @ ''1, 3'' @ piecesWord @ NL @ NL,
      Exit0) \<and>
   \<not> sorted [''B'', ''A'']"
  by code_simp

text \<open>
  \<^bold>\<open>C5.\<close> In \<^verbatim>\<open>cmd/main.go\<close>, after \<open>getOrders\<close> and \<open>initRacks\<close> have succeeded, the
  entry printed for a line item is its two head lines, then, when the answer to the racks
  query holds secondary racks for the product, one line with the label and exactly these
  names in the order returned, separated by commas, and a blank line; when the product
  has no secondary rack the label line is absent. The report of \<open>printRacksAndOrders\<close>
  is the banner and, for each rack name in sorted order, the header and these entries of
  the line items of its bucket, with no panic. A run of \<open>solve\<close> on these database
  answers groups the orders (each line item into one bucket, each bucket under one of the
  distinct sorted names), writes exactly this report and exits with status 0.
\<close>

theorem C5_secondary_racks_rendered:
  assumes "getOrders d orderIDs \<lparr>mainRacks = [], secondaryRacks = []\<rparr> = (Inr orders, g1)"
    and "initRacks d keysOrder g1 = (None, g2)"
    and "QueryRacks d (keysOrder (map fst (mainRacks g1))) = Rows rs final"
  shows "printPartOrder g2 po
         = (entryHead po @
            (if secondaryNames rs (ID (Product po)) = [] then []
             else extraRackWord @ commaJoin (secondaryNames rs (ID (Product po))) @ NL) @ NL,
            None) \<and>
         printRacksAndOrders g2 racks
         = (banner @ NL @
            concat (map (\<lambda>rackName. rackHeader @ rackName @ NL @
                           concat (map (renderedEntry rs) (index [] racks rackName)))
                      (getSortedRacksNames racks)),
            None) \<and>
         (1 < length args \<and> parseOrderIDs (args ! 1) = orderIDs \<and> rangeMainRacks rg = keysOrder
          \<longrightarrow> (\<exists>grouped.
                 groupOrdersByRack g2 (rangeOrders rg orders) = Inr grouped \<and>
                 distinct (getSortedRacksNames grouped) \<and>
                 set (getSortedRacksNames grouped) = fst ` set grouped \<and>
                 mset (concat (map snd grouped)) = mset (concat (map snd (rangeOrders rg orders))) \<and>
                 solve d rg args
                 = (banner @ NL @
                    concat (map (\<lambda>rackName. rackHeader @ rackName @ NL @
                                   concat (map (renderedEntry rs) (index [] grouped rackName)))
                              (getSortedRacksNames grouped)),
                    Exit0)))"
proof (intro conjI impI)
  have "secondaryRacks g1 = []"
    using getOrders_secondaryRacks [OF assms(1)] by simp
  then have sec: "index [] (secondaryRacks g2) pid = secondaryNames rs pid" for pid
    using initRacks_secondaryRacks [OF assms(2) assms(3), of pid]
    by (simp add: index_empty)
  have entry: "printPartOrder g2 p = (renderedEntry rs p, None)" for p
    by (simp add: printPartOrder_render sec renderedEntry_def)
  show "printPartOrder g2 po
         = (entryHead po @
            (if secondaryNames rs (ID (Product po)) = [] then []
             else extraRackWord @ commaJoin (secondaryNames rs (ID (Product po))) @ NL) @ NL,
            None)"
    using entry [of po] by (simp add: renderedEntry_def)
  show report: "printRacksAndOrders g2 racks
         = (banner @ NL @
            concat (map (\<lambda>rackName. rackHeader @ rackName @ NL @
                           concat (map (renderedEntry rs) (index [] racks rackName)))
                      (getSortedRacksNames racks)),
            None)" for racks
    by (rule printRacksAndOrders_entries) (rule entry)
  assume run: "1 < length args \<and> parseOrderIDs (args ! 1) = orderIDs \<and> rangeMainRacks rg = keysOrder"
  let ?grouped = "foldl (appendPart g2) [] (concat (map snd (rangeOrders rg orders)))"
  have g: "groupOrdersByRack g2 (rangeOrders rg orders) = Inr ?grouped"
    by (rule groupOrdersByRack_flat)
  have d: "distinct (getSortedRacksNames ?grouped)"
    unfolding appendPart_bucket
    by (rule getSortedRacksNames_distinct, rule bucket_distinct) simp
  have k: "set (getSortedRacksNames ?grouped) = fst ` set ?grouped"
    by (simp add: getSortedRacksNames_def)
  have m: "mset (concat (map snd ?grouped)) = mset (concat (map snd (rangeOrders rg orders)))"
    unfolding appendPart_bucket by (simp add: bucket_mset)
  have "solve d rg args = (fst (printRacksAndOrders g2 ?grouped), Exit0)"
    using run assms(1) assms(2) g report [of ?grouped]
    by (simp add: solve_def Let_def)
  then have s: "solve d rg args
                 = (banner @ NL @
                    concat (map (\<lambda>rackName. rackHeader @ rackName @ NL @
                                   concat (map (renderedEntry rs) (index [] ?grouped rackName)))
                              (getSortedRacksNames ?grouped)),
                    Exit0)"
    by (simp add: report)
  show "\<exists>grouped.
                 groupOrdersByRack g2 (rangeOrders rg orders) = Inr grouped \<and>
                 distinct (getSortedRacksNames grouped) \<and>
                 set (getSortedRacksNames grouped) = fst ` set grouped \<and>
                 mset (concat (map snd grouped)) = mset (concat (map snd (rangeOrders rg orders))) \<and>
                 solve d rg args
                 = (banner @ NL @
                    concat (map (\<lambda>rackName. rackHeader @ rackName @ NL @
                                   concat (map (renderedEntry rs) (index [] grouped rackName)))
                              (getSortedRacksNames grouped)),
                    Exit0)"
    using g d k m s by blast
qed

theorem C5_secondary_racks_rendered_witness:
  "(\<exists>orders g1 g2 rs final.
      getOrders exDbSecondary (parseOrderIDs ''1,2'') \<lparr>mainRacks = [], secondaryRacks = []\<rparr>
        = (Inr orders, g1) \<and>
      initRacks exDbSecondary (rangeMainRacks rangeAsBuilt) g1 = (None, g2) \<and>
      QueryRacks exDbSecondary (rangeMainRacks rangeAsBuilt (map fst (mainRacks g1))) = Rows rs final \<and>
      secondaryNames rs 10 = [] \<and> secondaryNames rs 20 = [''C'', ''D''] \<and>
      secondaryNames rs 30 = [''E'']) \<and>
   solve exDbSecondary rangeAsBuilt [''app'', ''1,2'']
   = (banner @ NL @
      rackHeader @ ''A'' @ NL @
        ''bolt (id=10)'' @ NL @ orderWord @ ''1, 3'' @ piecesWord @ NL @ NL @
      rackHeader @ ''B'' @ NL @
        ''nut (id=20)'' @ NL @ orderWord @ ''2, 1'' @ piecesWord @ NL @
        extraRackWord @ ''C,D'' @ NL @ NL @
        ''gear (id=30)'' @ NL @ orderWord @ ''2, 5'' @ piecesWord @ NL @
        extraRackWord @ ''E'' @ NL @ NL,
      Exit0)"
proof -
  let ?p10 = "\<lparr>OrderID = 1, Product = \<lparr>ID = 10, Name = ''bolt''\<rparr>, Quantity = 3\<rparr>"
  let ?p20 = "\<lparr>OrderID = 2, Product = \<lparr>ID = 20, Name = ''nut''\<rparr>, Quantity = 1\<rparr>"
  let ?p30 = "\<lparr>OrderID = 2, Product = \<lparr>ID = 30, Name = ''gear''\<rparr>, Quantity = 5\<rparr>"
  let ?orders = "[(1, [?p10]), (2, [?p20, ?p30])]"
  let ?g1 = "\<lparr>mainRacks = [(10, []), (20, []), (30, [])], secondaryRacks = []\<rparr>"
  let ?g2 = "\<lparr>mainRacks = [(10, ''A''), (20, ''B''), (30, ''B'')],
             secondaryRacks = [(20, [''C'', ''D'']), (30, [''E''])]\<rparr>"
  let ?rs = "[Scanned (10, ''A'', True), Scanned (20, ''B'', True), Scanned (20, ''C'', False),
              Scanned (30, ''E'', False), Scanned (20, ''D'', False), Scanned (30, ''B'', True)]"
  have ids: "parseOrderIDs ''1,2'' = [1, 2]" by code_simp
  have a: "getOrders exDbSecondary [1, 2] \<lparr>mainRacks = [], secondaryRacks = []\<rparr>
           = (Inr ?orders, ?g1)"
    by code_simp
  have ko: "rangeMainRacks rangeAsBuilt = (\<lambda>ks. ks)" by (simp add: rangeAsBuilt_def)
  have b: "initRacks exDbSecondary (\<lambda>ks. ks) ?g1 = (None, ?g2)"
    by code_simp
  have c: "QueryRacks exDbSecondary ((\<lambda>ks. ks) (map fst (mainRacks ?g1))) = Rows ?rs None"
    by (simp add: exDbSecondary_def answer_def)
  have n: "secondaryNames ?rs 10 = []" "secondaryNames ?rs 20 = [''C'', ''D'']"
    "secondaryNames ?rs 30 = [''E'']"
    by simp_all
  have run: "1 < length [''app'', ''1,2''] \<and> parseOrderIDs ([''app'', ''1,2''] ! 1) = [1, 2] \<and>
             rangeMainRacks rangeAsBuilt = (\<lambda>ks. ks)"
    using ids ko by simp
  have gg: "groupOrdersByRack ?g2 (rangeOrders rangeAsBuilt ?orders)
            = Inr [(''A'', [?p10]), (''B'', [?p20, ?p30])]"
    by code_simp
  from C5_secondary_racks_rendered
    [OF a b c, of _ _ "[''app'', ''1,2'']" rangeAsBuilt, THEN conjunct2, THEN conjunct2] run
  obtain grouped where
    g: "groupOrdersByRack ?g2 (rangeOrders rangeAsBuilt ?orders) = Inr grouped"
    and s: "solve exDbSecondary rangeAsBuilt [''app'', ''1,2'']
            = (banner @ NL @
               concat (map (\<lambda>rackName. rackHeader @ rackName @ NL @
                              concat (map (renderedEntry ?rs) (index [] grouped rackName)))
                         (getSortedRacksNames grouped)),
               Exit0)"
    by blast
  from g gg have grouped: "grouped = [(''A'', [?p10]), (''B'', [?p20, ?p30])]" by simp
  have names: "getSortedRacksNames [(''A'', [?p10]), (''B'', [?p20, ?p30])] = [''A'', ''B'']"
    by (simp add: getSortedRacksNames_def)
  have out: "solve exDbSecondary rangeAsBuilt [''app'', ''1,2'']
   = (banner @ NL @
      rackHeader @ ''A'' @ NL @
        ''bolt (id=10)'' @ NL @ orderWord @ ''1, 3'' @ piecesWord @ NL @ NL @
      rackHeader @ ''B'' @ NL @
        ''nut (id=20)'' @ NL @ orderWord @ ''2, 1'' @ piecesWord @ NL @
        extraRackWord @ ''C,D'' @ NL @ NL @
        ''gear (id=30)'' @ NL @ orderWord @ ''2, 5'' @ piecesWord @ NL @
        extraRackWord @ ''E'' @ NL @ NL,
      Exit0)"
    unfolding s grouped names
    by (simp add: index_def renderedEntry_def entryHead_def fmtInt_def n)
  have a': "getOrders exDbSecondary (parseOrderIDs ''1,2'') \<lparr>mainRacks = [], secondaryRacks = []\<rparr>
           = (Inr ?orders, ?g1)"
    using a ids by simp
  have b': "initRacks exDbSecondary (rangeMainRacks rangeAsBuilt) ?g1 = (None, ?g2)"
    using b ko by simp
  have c': "QueryRacks exDbSecondary (rangeMainRacks rangeAsBuilt (map fst (mainRacks ?g1)))
            = Rows ?rs None"
    using c ko by simp
  from a' b' c' n have "\<exists>orders g1 g2 rs final.
      getOrders exDbSecondary (parseOrderIDs ''1,2'') \<lparr>mainRacks = [], secondaryRacks = []\<rparr>
        = (Inr orders, g1) \<and>
      initRacks exDbSecondary (rangeMainRacks rangeAsBuilt) g1 = (None, g2) \<and>
      QueryRacks exDbSecondary (rangeMainRacks rangeAsBuilt (map fst (mainRacks g1))) = Rows rs final \<and>
      secondaryNames rs 10 = [] \<and> secondaryNames rs 20 = [''C'', ''D''] \<and>
      secondaryNames rs 30 = [''E'']"
    by blast
  then show ?thesis using out by simp
qed

text \<open>
  \<^bold>\<open>C6\<close>, with a proviso for the version with rack identifiers. A line item whose product
  has no main rack is put into the bucket of the empty name, and into no other. In
  \<^verbatim>\<open>cmd/main.go\<close>: when \<open>getOrders\<close> and \<open>initRacks\<close> have succeeded from the empty maps
  and the answer to the racks query holds no row marked main for the product, then
  \<open>mainRacks\<close> gives the empty string for it and \<open>groupOrdersByRack\<close>, ranging over the
  orders in any order, lists the item under the empty name only. In the version with rack
  identifiers: when \<open>mainRacks\<close> has no entry for the product and no rack with identifier
  0 is loaded in \<open>racksNames\<close>, the item is listed under the empty name only.
\<close>

theorem C6_no_main_rack_goes_to_the_empty_name:
  "(getOrders d orderIDs \<lparr>mainRacks = [], secondaryRacks = []\<rparr> = (Inr orders, g1) \<and>
    initRacks d keysOrder g1 = (None, g2) \<and>
    QueryRacks d (keysOrder (map fst (mainRacks g1))) = Rows rs final \<and>
    mset ranged = mset orders \<and>
    partOrder \<in> set (concat (map snd ranged)) \<and>
    \<not> hasMainRack rs (ID (Product partOrder))
    \<longrightarrow> index [] (mainRacks g2) (ID (Product partOrder)) = [] \<and>
        (\<exists>racks. groupOrdersByRack g2 ranged = Inr racks \<and>
           partOrder \<in> set (index [] racks []) \<and>
           (\<forall>k. partOrder \<in> set (index [] racks k) \<longrightarrow> k = []))) \<and>
   (map_of (mainRacks_ids g) (ProductID_ids partOrder') = None \<and>
    map_of (racksNames_ids g) 0 = None \<and>
    partOrder' \<in> set (concat (map snd orders'))
    \<longrightarrow> (\<exists>racks. groupOrdersByRack_ids g orders' = Inr racks \<and>
           partOrder' \<in> set (index [] racks []) \<and>
           (\<forall>k. partOrder' \<in> set (index [] racks k) \<longrightarrow> k = [])))"
proof (intro conjI impI)
  assume a: "getOrders d orderIDs \<lparr>mainRacks = [], secondaryRacks = []\<rparr> = (Inr orders, g1) \<and>
    initRacks d keysOrder g1 = (None, g2) \<and>
    QueryRacks d (keysOrder (map fst (mainRacks g1))) = Rows rs final \<and>
    mset ranged = mset orders \<and>
    partOrder \<in> set (concat (map snd ranged)) \<and>
    \<not> hasMainRack rs (ID (Product partOrder))"
  from a have a1: "getOrders d orderIDs \<lparr>mainRacks = [], secondaryRacks = []\<rparr> = (Inr orders, g1)"
    and a2: "initRacks d keysOrder g1 = (None, g2)"
    and a3: "QueryRacks d (keysOrder (map fst (mainRacks g1))) = Rows rs final"
    and a4: "\<not> hasMainRack rs (ID (Product partOrder))"
    by simp_all
  have "index [] (mainRacks g1) (ID (Product partOrder)) = []"
    by (rule getOrders_mainRacks [OF a1]) (simp add: index_empty)
  then show key: "index [] (mainRacks g2) (ID (Product partOrder)) = []"
    using initRacks_mainRacks [OF a2 a3 a4] by simp
  let ?racks = "foldl (appendPart g2) [] (concat (map snd ranged))"
  have "groupOrdersByRack g2 ranged = Inr ?racks" by (rule groupOrdersByRack_flat)
  moreover have "partOrder \<in> set (index [] ?racks k) \<longleftrightarrow> k = []" for k
    unfolding appendPart_bucket using a key
    by (subst in_bucket_iff [OF refl]) auto
  ultimately show "\<exists>racks. groupOrdersByRack g2 ranged = Inr racks \<and>
           partOrder \<in> set (index [] racks []) \<and>
           (\<forall>k. partOrder \<in> set (index [] racks k) \<longrightarrow> k = [])"
    by blast
next
  assume a: "map_of (mainRacks_ids g) (ProductID_ids partOrder') = None \<and>
    map_of (racksNames_ids g) 0 = None \<and>
    partOrder' \<in> set (concat (map snd orders'))"
  have key: "index [] (racksNames_ids g) (index 0 (mainRacks_ids g) (ProductID_ids partOrder')) = []"
    using a by (simp add: index_def)
  let ?racks = "foldl (appendPart_ids g) [] (concat (map snd orders'))"
  have "groupOrdersByRack_ids g orders' = Inr ?racks" by (rule groupOrdersByRack_ids_flat)
  moreover have "partOrder' \<in> set (index [] ?racks k) \<longleftrightarrow> k = []" for k
    unfolding appendPart_ids_bucket using a key
    by (subst in_bucket_iff [OF refl]) auto
  ultimately show "\<exists>racks. groupOrdersByRack_ids g orders' = Inr racks \<and>
           partOrder' \<in> set (index [] racks []) \<and>
           (\<forall>k. partOrder' \<in> set (index [] racks k) \<longrightarrow> k = [])"
    by blast
qed

theorem C6_witness:
  "(\<exists>orders g1 g2 rs final racks.
      getOrders exDbNoMain [1] \<lparr>mainRacks = [], secondaryRacks = []\<rparr> = (Inr orders, g1) \<and>
      initRacks exDbNoMain (\<lambda>ks. ks) g1 = (None, g2) \<and>
      QueryRacks exDbNoMain (map fst (mainRacks g1)) = Rows rs final \<and>
      exPartNoMain \<in> set (concat (map snd orders)) \<and>
      \<not> hasMainRack rs (ID (Product exPartNoMain)) \<and>
      groupOrdersByRack g2 orders = Inr racks \<and>
      exPartNoMain \<in> set (index [] racks [])) \<and>
   map_of (mainRacks_ids exGlobals_ids) (ProductID_ids exPart20_ids) = None \<and>
   map_of (racksNames_ids exGlobals_ids) 0 = None \<and>
   (\<exists>racks. groupOrdersByRack_ids exGlobals_ids [(1, [exPart10_ids, exPart20_ids])] = Inr racks \<and>
      exPart20_ids \<in> set (index [] racks []))"
proof -
  let ?g0 = "\<lparr>mainRacks = [], secondaryRacks = []\<rparr>"
  let ?orders = "[(1, [\<lparr>OrderID = 1, Product = \<lparr>ID = 10, Name = ''bolt''\<rparr>, Quantity = 3\<rparr>,
                       exPartNoMain])]"
  let ?g1 = "\<lparr>mainRacks = [(10, []), (20, [])], secondaryRacks = []\<rparr>"
  let ?g2 = "\<lparr>mainRacks = [(10, ''A''), (20, [])], secondaryRacks = [(20, [''C''])]\<rparr>"
  let ?rs = "[Scanned (10, ''A'', True), Scanned (20, ''C'', False)]"
  have a: "getOrders exDbNoMain [1] ?g0 = (Inr ?orders, ?g1)" by code_simp
  have b: "initRacks exDbNoMain (\<lambda>ks. ks) ?g1 = (None, ?g2)" by code_simp
  have c: "QueryRacks exDbNoMain (map fst (mainRacks ?g1)) = Rows ?rs None"
    by (simp add: exDbNoMain_def answer_def)
  have m: "exPartNoMain \<in> set (concat (map snd ?orders))" by simp
  have n: "\<not> hasMainRack ?rs (ID (Product exPartNoMain))"
    by (simp add: hasMainRack_def exPartNoMain_def)
  have "\<exists>racks. groupOrdersByRack ?g2 ?orders = Inr racks \<and>
           exPartNoMain \<in> set (index [] racks [])"
    using C6_no_main_rack_goes_to_the_empty_name
      [of exDbNoMain "[1]" ?orders ?g1 "\<lambda>ks. ks" ?g2 ?rs None ?orders exPartNoMain]
      a b c m n
    by blast
  then have first: "\<exists>orders g1 g2 rs final racks.
      getOrders exDbNoMain [1] ?g0 = (Inr orders, g1) \<and>
      initRacks exDbNoMain (\<lambda>ks. ks) g1 = (None, g2) \<and>
      QueryRacks exDbNoMain (map fst (mainRacks g1)) = Rows rs final \<and>
      exPartNoMain \<in> set (concat (map snd orders)) \<and>
      \<not> hasMainRack rs (ID (Product exPartNoMain)) \<and>
      groupOrdersByRack g2 orders = Inr racks \<and>
      exPartNoMain \<in> set (index [] racks [])"
    using a b c m n by blast
  have h1: "map_of (mainRacks_ids exGlobals_ids) (ProductID_ids exPart20_ids) = None"
    by (simp add: exGlobals_ids_def exPart20_ids_def)
  have h2: "map_of (racksNames_ids exGlobals_ids) 0 = None"
    by (simp add: exGlobals_ids_def)
  have h3: "exPart20_ids \<in> set (concat (map snd [(1, [exPart10_ids, exPart20_ids])]))"
    by simp
  have "\<exists>racks. groupOrdersByRack_ids exGlobals_ids [(1, [exPart10_ids, exPart20_ids])] = Inr racks \<and>
      exPart20_ids \<in> set (index [] racks [])"
    using C6_no_main_rack_goes_to_the_empty_name
      [of _ _ _ _ _ _ _ _ _ _ exGlobals_ids exPart20_ids "[(1, [exPart10_ids, exPart20_ids])]"]
      h1 h2 h3
    by blast
  then show ?thesis using first h1 h2 by blast
qed

text \<open>Against \<^bold>\<open>C6\<close> without the proviso: in the version with rack identifiers a
  product without a main rack reads rack
  identifier 0 from \<open>mainRacks\<close>, and is put into the bucket of the name of rack 0 when
  there is such a rack: here into the bucket of rack A, together with product 10.\<close>

theorem C6_counterexample:
  "getOrders_ids exDb_ids [1]
     \<lparr>productsNames_ids = [], racksNames_ids = [], mainRacks_ids = [], secondaryRacks_ids = []\<rparr>
   = (Inr [(1, [exPart10_ids, exPart20_ids])],
      \<lparr>productsNames_ids = [(10, []), (20, [])], racksNames_ids = [], mainRacks_ids = [],
        secondaryRacks_ids = []\<rparr>) \<and>
   initProductsNames_ids exDb_ids [10, 20]
     \<lparr>productsNames_ids = [(10, []), (20, [])], racksNames_ids = [], mainRacks_ids = [],
       secondaryRacks_ids = []\<rparr>
   = (None,
      \<lparr>productsNames_ids = [(10, ''bolt''), (20, ''nut'')], racksNames_ids = [],
        mainRacks_ids = [], secondaryRacks_ids = []\<rparr>) \<and>
   initRacks_ids exDb_ids [10, 20]
     \<lparr>productsNames_ids = [(10, ''bolt''), (20, ''nut'')], racksNames_ids = [],
       mainRacks_ids = [], secondaryRacks_ids = []\<rparr>
   = (None,
      \<lparr>productsNames_ids = [(10, ''bolt''), (20, ''nut'')], racksNames_ids = [(0, ''A'')],
        mainRacks_ids = [(10, 0)], secondaryRacks_ids = []\<rparr>) \<and>
   map_of [(10, 0 :: int)] (ProductID_ids exPart20_ids) = None \<and>
   groupOrdersByRack_ids
     \<lparr>productsNames_ids = [(10, ''bolt''), (20, ''nut'')], racksNames_ids = [(0, ''A'')],
       mainRacks_ids = [(10, 0)], secondaryRacks_ids = []\<rparr>
     [(1, [exPart10_ids, exPart20_ids])]
   = Inr [(''A'', [exPart10_ids, exPart20_ids])]"
  by code_simp

text \<open>
  \<^bold>\<open>C7.\<close> A requested order without rows is not an error and contributes no line items.
  In \<^verbatim>\<open>cmd/main.go\<close>: when the orders query is answered with rows that all scan and no
  final error, \<open>getOrders\<close> succeeds, and an order identifier of which the answer holds no
  row has no entry in the map, so that \<open>orders[id]\<close> reads the empty list. In the store
  version: when the store answers the lookup of every requested order and the name
  lookups of their products, \<open>getOrders\<close> succeeds, and every requested order for which
  \<open>GetOrder\<close> returns no rows is in the map with the empty list of products.
\<close>

theorem C7_missing_order_is_empty_not_fatal:
  "(QueryOrders d orderIDs = Rows rs None \<and> list_all (\<lambda>r. \<exists>row. r = Scanned row) rs
    \<longrightarrow> (\<exists>orders g'. getOrders d orderIDs g = (Inr orders, g') \<and>
           (\<forall>x \<in> set orderIDs. \<not> orderHasRows rs x \<longrightarrow>
              map_of orders x = None \<and> index [] orders x = []))) \<and>
   (list_all (orderResolvable st) orderIDs'
    \<longrightarrow> (\<exists>orders cache'. getOrders_store st orderIDs' cache = (Inr orders, cache') \<and>
           (\<forall>x \<in> set orderIDs'. GetOrder st x = Inr [] \<longrightarrow>
              map_of orders x = Some [] \<and> index [] orders x = [])))"
proof (intro conjI impI)
  assume a: "QueryOrders d orderIDs = Rows rs None \<and> list_all (\<lambda>r. \<exists>row. r = Scanned row) rs"
  then obtain orders g' where
    r: "getOrdersRows rs [] g = (Inr orders, g')"
    and k: "\<forall>x. \<not> orderHasRows rs x \<longrightarrow> map_of orders x = map_of [] x"
    using getOrdersRows_ok [of rs "[]" g] by blast
  have "getOrders d orderIDs g = (Inr orders, g')"
    using a r by (simp add: getOrders_def)
  moreover have "\<forall>x \<in> set orderIDs. \<not> orderHasRows rs x \<longrightarrow>
              map_of orders x = None \<and> index [] orders x = []"
    using k by (simp add: index_def)
  ultimately show "\<exists>orders g'. getOrders d orderIDs g = (Inr orders, g') \<and>
           (\<forall>x \<in> set orderIDs. \<not> orderHasRows rs x \<longrightarrow>
              map_of orders x = None \<and> index [] orders x = [])"
    by blast
next
  assume a: "list_all (orderResolvable st) orderIDs'"
  from getOrdersLoop_store_ok [OF a, of "[]" cache] obtain orders cache' where
    r: "getOrdersLoop_store st orderIDs' [] cache = (Inr orders, cache')"
    and k: "\<forall>x. (x \<in> set orderIDs' \<and> GetOrder st x = Inr [] \<longrightarrow> map_of orders x = Some [])"
    by blast
  have "getOrders_store st orderIDs' cache = (Inr orders, cache')"
    using r by (simp add: getOrders_store_def)
  moreover have "\<forall>x \<in> set orderIDs'. GetOrder st x = Inr [] \<longrightarrow>
              map_of orders x = Some [] \<and> index [] orders x = []"
    using k by (simp add: index_def)
  ultimately show "\<exists>orders cache'. getOrders_store st orderIDs' cache = (Inr orders, cache') \<and>
           (\<forall>x \<in> set orderIDs'. GetOrder st x = Inr [] \<longrightarrow>
              map_of orders x = Some [] \<and> index [] orders x = [])"
    by blast
qed

theorem C7_witness:
  "QueryOrders exDb [1, 2, 3] = Rows [Scanned (1, 10, 3, ''bolt''), Scanned (2, 20, 1, ''nut'')] None \<and>
   \<not> orderHasRows [Scanned (1, 10, 3, ''bolt''), Scanned (2, 20, 1, ''nut'')] 3 \<and>
   (\<exists>orders g'. getOrders exDb [1, 2, 3] \<lparr>mainRacks = [], secondaryRacks = []\<rparr> = (Inr orders, g') \<and>
      map_of orders 3 = None \<and> index [] orders 3 = []) \<and>
   orderResolvable exStore 1 \<and> orderResolvable exStore 2 \<and> orderResolvable exStore 3 \<and>
   GetOrder exStore 3 = Inr [] \<and>
   (\<exists>orders cache'. getOrders_store exStore [1, 2, 3] [] = (Inr orders, cache') \<and>
      map_of orders 3 = Some [] \<and> index [] orders 3 = [])"
proof -
  let ?rs = "[Scanned (1, 10, 3, ''bolt''), Scanned (2, 20, 1, ''nut'')]"
  have q: "QueryOrders exDb [1, 2, 3] = Rows ?rs None" by (simp add: exDb_def answer_def)
  have s: "list_all (\<lambda>r. \<exists>row. r = Scanned row) ?rs" by simp
  have n: "\<not> orderHasRows ?rs 3" by (simp add: orderHasRows_def)
  have o: "orderResolvable exStore 1" "orderResolvable exStore 2" "orderResolvable exStore 3"
    by (simp_all add: orderResolvable_def exStore_def)
  have e: "GetOrder exStore 3 = Inr []" by (simp add: exStore_def)
  note inst = C7_missing_order_is_empty_not_fatal
    [of exDb "[1, 2, 3]" ?rs "\<lparr>mainRacks = [], secondaryRacks = []\<rparr>" exStore "[1, 2, 3]" "[]"]
  have first: "\<exists>orders g'. getOrders exDb [1, 2, 3] \<lparr>mainRacks = [], secondaryRacks = []\<rparr> = (Inr orders, g') \<and>
      map_of orders 3 = None \<and> index [] orders 3 = []"
    using inst q s n by auto
  have second: "\<exists>orders cache'. getOrders_store exStore [1, 2, 3] [] = (Inr orders, cache') \<and>
      map_of orders 3 = Some [] \<and> index [] orders 3 = []"
    using inst o e by auto
  show ?thesis using q n first o e second by blast
qed

text \<open>
  \<^bold>\<open>C8\<close>, with the exception the library forces. \<open>parseOrderIDs\<close> never fails and returns one integer per
  comma-separated token, one more than the string has commas. A token that is not a valid
  integer gives 0, unless the digits it starts with (after the sign) already exceed the
  range of \<^verbatim>\<open>uint64\<close>: then \<^verbatim>\<open>ParseUint\<close> stops with a range error before it reaches
  the offending byte, and the token gives the largest \<^verbatim>\<open>int64\<close>, or the smallest when it
  starts with a minus sign.
\<close>

theorem C8_invalid_tokens_parse_silently:
  "length (parseOrderIDs s) = length (Split s) \<and>
   length (Split s) = Suc (length (filter (\<lambda>c. c = CHR '','') s)) \<and>
   (\<forall>i < length (Split s). \<not> validInteger (Split s ! i) \<longrightarrow>
      parseOrderIDs s ! i
      = (if decimalFrom 0 (takeWhile isDigit (unsigned (Split s ! i))) \<le> maxUint64 then 0
         else if hd (Split s ! i) = CHR ''-'' then - (2 ^ 63) else 2 ^ 63 - 1))"
  by (simp add: parseOrderIDs_def Split_def splitFrom_length ParseInt_invalid)

theorem C8_witness:
  "Split ''1,abc,'' = [''1'', ''abc'', []] \<and> \<not> validInteger ''abc'' \<and>
   decimalFrom 0 (takeWhile isDigit (unsigned ''abc'')) = 0 \<and>
   length (parseOrderIDs ''1,abc,'') = 3 \<and>
   parseOrderIDs ''1,abc,'' ! 1 = 0 \<and> parseOrderIDs ''1,abc,'' ! 2 = 0"
proof -
  have sp: "Split ''1,abc,'' = [''1'', ''abc'', []]" by (simp add: Split_def)
  have nd: "\<not> isDigit CHR ''a''" by (simp add: isDigit_def less_eq_char_def)
  have v1: "\<not> validInteger ''abc''"
    using nd by (simp add: validInteger_def unsigned_def)
  have v2: "\<not> validInteger []" by (simp add: validInteger_def unsigned_def)
  have d1: "decimalFrom 0 (takeWhile isDigit (unsigned ''abc'')) = 0"
    using nd by (simp add: unsigned_def decimalFrom_def)
  have d2: "decimalFrom 0 (takeWhile isDigit (unsigned [])) = 0"
    by (simp add: unsigned_def decimalFrom_def)
  have m: "(0::int) \<le> maxUint64" by (simp add: maxUint64_def)
  note inst = C8_invalid_tokens_parse_silently [of "''1,abc,''"]
  have len: "length (parseOrderIDs ''1,abc,'') = 3" using inst sp by simp
  have "1 < length (Split ''1,abc,'')" "2 < length (Split ''1,abc,'')" using sp by simp_all
  then have "parseOrderIDs ''1,abc,'' ! 1 = 0" "parseOrderIDs ''1,abc,'' ! 2 = 0"
    using inst sp v1 v2 d1 d2 m by auto
  then show ?thesis using sp v1 d1 len by simp
qed

text \<open>Against \<^bold>\<open>C8\<close> without the exception: a token of twenty nines and a letter is
  not a valid integer, and it is parsed to the
  largest \<^verbatim>\<open>int64\<close>, not to 0: the range error comes first.\<close>

theorem C8_counterexample:
  "Split ''7,99999999999999999999x'' = [''7'', ''99999999999999999999x''] \<and>
   \<not> validInteger ''99999999999999999999x'' \<and>
   parseOrderIDs ''7,99999999999999999999x'' = [7, 9223372036854775807]"
  by code_simp

text \<open>
  \<^bold>\<open>C9.\<close> The slice expression that strips the trailing comma stays in bounds. When the
  list of secondary racks is not empty, the accumulated string holds at least one byte
  (each rack adds its name and a comma, so it is at least as long as the list), and
  \<^verbatim>\<open>s[:len(s)-1]\<close> yields the string without its last byte instead of a panic. Hence
  \<open>printRacksAndOrders\<close> ends without a panic on every input, in \<^verbatim>\<open>cmd/main.go\<close> and
  in the version with rack identifiers.
\<close>

theorem C9_slice_in_bounds:
  "(0 < length names \<longrightarrow>
      1 \<le> length (listAdditionalRacksStr names) \<and>
      length names \<le> length (listAdditionalRacksStr names) \<and>
      sliceTo (listAdditionalRacksStr names) (int (length (listAdditionalRacksStr names)) - 1)
        = Inr (butlast (listAdditionalRacksStr names))) \<and>
   snd (printRacksAndOrders g racks) = None \<and>
   snd (printRacksAndOrders_ids g' racks') = None"
proof -
  have "1 \<le> length (listAdditionalRacksStr names) \<and>
      length names \<le> length (listAdditionalRacksStr names) \<and>
      sliceTo (listAdditionalRacksStr names) (int (length (listAdditionalRacksStr names)) - 1)
        = Inr (butlast (listAdditionalRacksStr names))" if "0 < length names"
  proof -
    have le: "length names \<le> length (listAdditionalRacksStr names)"
      by (rule listAdditionalRacksStr_length)
    then have ne: "listAdditionalRacksStr names \<noteq> []" using that by auto
    then have "1 \<le> length (listAdditionalRacksStr names)"
      by (cases "listAdditionalRacksStr names") simp_all
    then show ?thesis using le sliceTo_butlast [OF ne] by simp
  qed
  then show ?thesis
    by (simp add: printRacksAndOrders_ok printRacksAndOrders_ids_ok)
qed

theorem C9_slice_in_bounds_witness:
  "0 < length [''C'', ''D''] \<and>
   sliceTo (listAdditionalRacksStr [''C'', ''D'']) (int (length (listAdditionalRacksStr [''C'', ''D''])) - 1)
     = Inr ''C,D''"
  using C9_slice_in_bounds [of "[''C'', ''D'']"]
  by (simp add: listAdditionalRacksStr_def)

text \<open>
  \<^bold>\<open>C10.\<close> In the two batch-loading versions (\<^verbatim>\<open>cmd/main.go\<close> and the version with rack
  identifiers) \<open>groupOrdersByRack\<close> returns a map and a nil error on every input: whatever
  the loaded maps and the orders are, the result is \<open>Inr racks\<close>, so the report is never
  aborted at this stage.
\<close>

theorem C10_grouping_returns_nil_error:
  "(\<exists>racks. groupOrdersByRack g orders = Inr racks) \<and>
   (\<exists>racks. groupOrdersByRack_ids g' orders' = Inr racks)"
  by (simp add: groupOrdersByRack_def groupOrdersByRack_ids_def)

end
